theory Spec2Isabelle
  imports Main "HOL-Library.Multiset"
begin

section \<open>Control blocks, handles and the heap\<close>

text \<open>
  The embedding follows \<^verbatim>\<open>shared.h\<close> (control blocks, \<^verbatim>\<open>SharedPtr\<close>,
  \<^verbatim>\<open>MakeShared\<close>) and the weak-pointer header (\<^verbatim>\<open>WeakPtr\<close>).

  A control block lives in a heap of blocks and is named by a block identifier; the null
  block pointer is \<open>None\<close>. Identifiers are handed out by a counter and never reused,
  so an identifier names one allocation for the whole run. A block pointer whose block
  has been deleted is dangling: reading or writing through it is undefined behaviour,
  which the model reports as a result of its own instead of inventing a value.

  The observed pointer \<^verbatim>\<open>T* ptr_\<close> is an opaque address; \<open>Storage b\<close> is the address
  of the in-place storage of the \<^verbatim>\<open>ControlBlockHolder\<close> with identifier \<open>b\<close>
  (what \<^verbatim>\<open>Get()\<close> of the holder returns), \<open>Addr n\<close> any other address.

  The counters are C++ \<^verbatim>\<open>int\<close>s. Signed overflow is undefined in C++, so the counters are
  modelled as mathematical integers: the model agrees with the program on every run that
  keeps fewer than \<open>2^31\<close> references on a block and says nothing about the others.
  Nor does the model follow the lifetime of a managed object: when a client hands the same
  raw pointer to two control blocks, the code deletes the object twice (undefined
  behaviour), where the model records two deletions.
\<close>

type_synonym block_id = nat

datatype addr = Addr nat | Storage block_id

text \<open>
  What the library does to the outside world is recorded in a trace: a call of
  \<^verbatim>\<open>IfNoShared\<close> on a block, a destructor call on a managed object, the deallocation of
  a separately allocated object (the second half of \<^verbatim>\<open>delete ptr_\<close>), and the deletion of
  a control block (\<^verbatim>\<open>delete block_\<close>). The library never allocates a managed object
  separately; \<open>Alloc\<close> records the \<^verbatim>\<open>new T\<close> of a client statement that the model
  follows (see \<open>SharedPtr_from_new\<close> below).
\<close>

datatype event = Release block_id | Destroy addr | Dealloc addr | FreeBlock block_id | Alloc addr

datatype variant = ControlBlockPtr "addr option" | ControlBlockHolder

record ControlBlockBase =
  shared_refs :: int
  weak_refs :: int
  variant :: variant

record heap =
  blocks :: "block_id \<rightharpoonup> ControlBlockBase"
  next_block :: block_id
  trace :: "event list"

text \<open>
  \<^verbatim>\<open>SharedPtr<T>\<close> and \<^verbatim>\<open>WeakPtr<T>\<close> have the same two fields, \<^verbatim>\<open>ptr_\<close> and
  \<^verbatim>\<open>block_\<close> (written without the trailing underscore, which a constant's name cannot have).
\<close>

record handle =
  ptr :: "addr option"
  block :: "block_id option"

text \<open>
  The exceptions: \<^verbatim>\<open>BadWeakPtr\<close>, the \<^verbatim>\<open>std::bad_alloc\<close> of a failed allocation, and
  whatever the constructor of the managed type throws.
\<close>

datatype exn = BadWeakPtr | BadAlloc | CtorException

text \<open>
  The ways in which a run ends without a result: an access to a deleted control block, a
  second deletion of a control block, the use of a handle variable whose lifetime has
  ended (all three undefined behaviour), and the call of \<^verbatim>\<open>std::terminate\<close>.
\<close>

datatype ub = UseAfterFree | DoubleFree | DeadHandle | Terminate

text \<open>
  A call returns a value and the new state, throws an exception in some state, or ends
  the run.
\<close>

datatype ('a, 's) outcome = Returns 'a 's | Throws exn 's | Undefined ub

definition andThen :: "('a, 's) outcome \<Rightarrow> ('a \<Rightarrow> 's \<Rightarrow> ('b, 's) outcome) \<Rightarrow> ('b, 's) outcome" where
  "andThen m f = (case m of Returns a s \<Rightarrow> f a s | Throws e s \<Rightarrow> Throws e s | Undefined u \<Rightarrow> Undefined u)"

text \<open>
  The destructor of the managed type \<^verbatim>\<open>T\<close> is a template parameter of the code: it is a
  parameter of the model, the effect of \<^verbatim>\<open>~T()\<close> on the heap of control blocks for the
  object at the given address. \<open>trivial_dtor\<close> is the destructor of a type that owns no
  handle (an \<^verbatim>\<open>int\<close>, a plain struct).
\<close>

type_synonym dtor = "addr \<Rightarrow> heap \<Rightarrow> (unit, heap) outcome"

definition trivial_dtor :: dtor where
  "trivial_dtor p hp = Returns () hp"

text \<open>
  A function that is \<^verbatim>\<open>noexcept\<close>, as every destructor is unless it is declared
  otherwise: an exception that would leave it calls \<^verbatim>\<open>std::terminate\<close> instead.
\<close>

definition noexcept_call :: "('a, 's) outcome \<Rightarrow> ('a, 's) outcome" where
  "noexcept_call m = (case m of Returns a s \<Rightarrow> Returns a s | Throws e s \<Rightarrow> Undefined Terminate | Undefined u \<Rightarrow> Undefined u)"

subsection \<open>Heap accesses\<close>

definition read_block :: "block_id \<Rightarrow> heap \<Rightarrow> (ControlBlockBase, heap) outcome" where
  "read_block b hp = (case blocks hp b of None \<Rightarrow> Undefined UseAfterFree | Some cb \<Rightarrow> Returns cb hp)"

definition write_block :: "block_id \<Rightarrow> (ControlBlockBase \<Rightarrow> ControlBlockBase) \<Rightarrow> heap \<Rightarrow> (unit, heap) outcome" where
  "write_block b f hp =
     (case blocks hp b of
        None \<Rightarrow> Undefined UseAfterFree
      | Some cb \<Rightarrow> Returns () (hp\<lparr>blocks := (blocks hp)(b \<mapsto> f cb)\<rparr>))"

text \<open>
  \<^verbatim>\<open>new ControlBlockPtr<Y>(ptr)\<close> and \<^verbatim>\<open>new ControlBlockHolder<T>(args...)\<close>: the counters
  start at 0 (their default member initialisers). Whether the allocator succeeds is an
  input of the model; when it fails, \<^verbatim>\<open>std::bad_alloc\<close> is thrown and nothing else has
  happened.
\<close>

definition new_block :: "bool \<Rightarrow> variant \<Rightarrow> heap \<Rightarrow> (block_id, heap) outcome" where
  "new_block alloc_ok v hp =
     (if alloc_ok
      then Returns (next_block hp)
             (hp\<lparr>blocks := (blocks hp)(next_block hp \<mapsto> \<lparr>shared_refs = 0, weak_refs = 0, variant = v\<rparr>),
                 next_block := Suc (next_block hp)\<rparr>)
      else Throws BadAlloc hp)"

text \<open>\<^verbatim>\<open>delete block_\<close>: the destructors of both variants are defaulted and release nothing else.\<close>

definition delete_block :: "block_id \<Rightarrow> heap \<Rightarrow> (unit, heap) outcome" where
  "delete_block b hp =
     (case blocks hp b of
        None \<Rightarrow> Undefined DoubleFree
      | Some cb \<Rightarrow> Returns () (hp\<lparr>blocks := (blocks hp)(b := None), trace := trace hp @ [FreeBlock b]\<rparr>))"

subsection \<open>The two control block variants\<close>

text \<open>\<^verbatim>\<open>delete p\<close> for a \<^verbatim>\<open>T* p\<close>: nothing for the null pointer, else the destructor and the deallocation.\<close>

definition delete_object :: "dtor \<Rightarrow> addr option \<Rightarrow> heap \<Rightarrow> (unit, heap) outcome" where
  "delete_object D p hp =
     (case p of
        None \<Rightarrow> Returns () hp
      | Some q \<Rightarrow>
          andThen (D q (hp\<lparr>trace := trace hp @ [Destroy q]\<rparr>))
            (\<lambda>_ hp'. Returns () (hp'\<lparr>trace := trace hp' @ [Dealloc q]\<rparr>)))"

text \<open>
  The virtual \<^verbatim>\<open>IfNoShared\<close>. \<^verbatim>\<open>ControlBlockPtr\<close>: \<^verbatim>\<open>delete ptr_; ptr_ = nullptr;\<close>.
  \<^verbatim>\<open>ControlBlockHolder\<close>: the destructor call on the storage, in place.
\<close>

definition IfNoShared :: "dtor \<Rightarrow> block_id \<Rightarrow> heap \<Rightarrow> (unit, heap) outcome" where
  "IfNoShared D b hp =
     andThen (read_block b (hp\<lparr>trace := trace hp @ [Release b]\<rparr>)) (\<lambda>cb hp0.
       case variant cb of
         ControlBlockPtr p \<Rightarrow>
           andThen (delete_object D p hp0)
             (\<lambda>_ hp1. write_block b (\<lambda>c. c\<lparr>variant := ControlBlockPtr None\<rparr>) hp1)
       | ControlBlockHolder \<Rightarrow> D (Storage b) (hp0\<lparr>trace := trace hp0 @ [Destroy (Storage b)]\<rparr>))"

section \<open>SharedPtr\<close>

text \<open>\<^verbatim>\<open>if (block_) { ++(block_->shared_refs); }\<close>, the body of every sharing constructor.\<close>

definition acquire_shared :: "block_id option \<Rightarrow> heap \<Rightarrow> (unit, heap) outcome" where
  "acquire_shared blk hp =
     (case blk of
        None \<Rightarrow> Returns () hp
      | Some b \<Rightarrow> write_block b (\<lambda>c. c\<lparr>shared_refs := shared_refs c + 1\<rparr>) hp)"

text \<open>\<^verbatim>\<open>SharedPtr()\<close> and \<^verbatim>\<open>SharedPtr(std::nullptr_t)\<close>.\<close>

definition SharedPtr_null :: handle where
  "SharedPtr_null = \<lparr>ptr = None, block = None\<rparr>"

text \<open>\<^verbatim>\<open>SharedPtr(Y* ptr)\<close>: the block is allocated first, then its count is set to 1.\<close>

definition SharedPtr_from_ptr :: "bool \<Rightarrow> addr option \<Rightarrow> heap \<Rightarrow> (handle, heap) outcome" where
  "SharedPtr_from_ptr alloc_ok p hp =
     andThen (new_block alloc_ok (ControlBlockPtr p) hp) (\<lambda>b hp1.
       andThen (write_block b (\<lambda>c. c\<lparr>shared_refs := 1\<rparr>) hp1)
         (\<lambda>_ hp2. Returns \<lparr>ptr = p, block = Some b\<rparr> hp2))"

text \<open>\<^verbatim>\<open>SharedPtr(Y* ptr, ControlBlockBase* block)\<close>.\<close>

definition SharedPtr_from_block :: "addr option \<Rightarrow> block_id option \<Rightarrow> heap \<Rightarrow> (handle, heap) outcome" where
  "SharedPtr_from_block p blk hp =
     andThen (acquire_shared blk hp) (\<lambda>_ hp1. Returns \<lparr>ptr = p, block = blk\<rparr> hp1)"

text \<open>The copy constructors (same type and converting).\<close>

definition SharedPtr_copy :: "handle \<Rightarrow> heap \<Rightarrow> (handle, heap) outcome" where
  "SharedPtr_copy other hp =
     andThen (acquire_shared (block other) hp)
       (\<lambda>_ hp1. Returns \<lparr>ptr = ptr other, block = block other\<rparr> hp1)"

text \<open>The move constructors: the new handle and what is left in the source.\<close>

definition SharedPtr_move :: "handle \<Rightarrow> handle \<times> handle" where
  "SharedPtr_move other =
     (\<lparr>ptr = ptr other, block = block other\<rparr>, \<lparr>ptr = None, block = None\<rparr>)"

text \<open>The aliasing constructor \<^verbatim>\<open>SharedPtr(const SharedPtr<Y>& other, T* ptr)\<close>.\<close>

definition SharedPtr_alias :: "handle \<Rightarrow> addr option \<Rightarrow> heap \<Rightarrow> (handle, heap) outcome" where
  "SharedPtr_alias other p hp =
     andThen (acquire_shared (block other) hp)
       (\<lambda>_ hp1. Returns \<lparr>ptr = p, block = block other\<rparr> hp1)"

text \<open>
  \<^verbatim>\<open>UseCount()\<close> returns the \<^verbatim>\<open>int\<close> counter as a \<^verbatim>\<open>size_t\<close>: a negative value comes
  out as that value plus \<open>2^64\<close>.
\<close>

definition size_t_of_int :: "int \<Rightarrow> nat" where
  "size_t_of_int i = nat (if i < 0 then i + 2 ^ 64 else i)"

definition SharedPtr_UseCount :: "handle \<Rightarrow> heap \<Rightarrow> (nat, heap) outcome" where
  "SharedPtr_UseCount h hp =
     (case block h of
        None \<Rightarrow> Returns 0 hp
      | Some b \<Rightarrow> andThen (read_block b hp) (\<lambda>cb hp1. Returns (size_t_of_int (shared_refs cb)) hp1))"

definition SharedPtr_Get :: "handle \<Rightarrow> addr option" where
  "SharedPtr_Get h = ptr h"

text \<open>\<^verbatim>\<open>explicit operator bool()\<close>: \<^verbatim>\<open>ptr_ != nullptr\<close>.\<close>

definition SharedPtr_bool :: "handle \<Rightarrow> bool" where
  "SharedPtr_bool h = (ptr h \<noteq> None)"

text \<open>
  The destructor \<^verbatim>\<open>~SharedPtr()\<close>. It is implicitly \<^verbatim>\<open>noexcept\<close>: should the destructor
  of the managed type throw inside \<^verbatim>\<open>IfNoShared\<close>, the program is terminated.
\<close>

definition SharedPtr_dtor :: "dtor \<Rightarrow> handle \<Rightarrow> heap \<Rightarrow> (unit, heap) outcome" where
  "SharedPtr_dtor D h hp = noexcept_call
     (case block h of
        None \<Rightarrow> Returns () hp
      | Some b \<Rightarrow>
          andThen (write_block b (\<lambda>c. c\<lparr>shared_refs := shared_refs c - 1\<rparr>) hp) (\<lambda>_ hp1.
          andThen (read_block b hp1) (\<lambda>cb1 hp1.
          andThen (if shared_refs cb1 = 0 then IfNoShared D b hp1 else Returns () hp1) (\<lambda>_ hp2.
          andThen (read_block b hp2) (\<lambda>cb2 hp2.
            if shared_refs cb2 + weak_refs cb2 = 0 then delete_block b hp2 else Returns () hp2)))))"

text \<open>
  \<^verbatim>\<open>new ControlBlockHolder<T>(args...)\<close>: the allocation, then the constructor of the
  holder, which constructs the managed object in the storage with \<^verbatim>\<open>T{args...}\<close>. Whether
  the constructor of the managed type returns is an input of the model, as the allocator is.
  When it throws, the new-expression gives the memory back and the exception propagates:
  the block has never been visible, and the heap is the one before the call.
\<close>

definition new_holder :: "bool \<Rightarrow> bool \<Rightarrow> heap \<Rightarrow> (block_id, heap) outcome" where
  "new_holder alloc_ok ctor_ok hp =
     andThen (new_block alloc_ok ControlBlockHolder hp)
       (\<lambda>b hp1. if ctor_ok then Returns b hp1 else Throws CtorException hp)"

text \<open>\<^verbatim>\<open>MakeShared<T>(args...)\<close>: one allocation for block and object, then the handle.\<close>

definition MakeShared :: "bool \<Rightarrow> bool \<Rightarrow> heap \<Rightarrow> (handle, heap) outcome" where
  "MakeShared alloc_ok ctor_ok hp =
     andThen (new_holder alloc_ok ctor_ok hp)
       (\<lambda>b hp1. SharedPtr_from_block (Some (Storage b)) (Some b) hp1)"

section \<open>WeakPtr\<close>

definition acquire_weak :: "block_id option \<Rightarrow> heap \<Rightarrow> (unit, heap) outcome" where
  "acquire_weak blk hp =
     (case blk of
        None \<Rightarrow> Returns () hp
      | Some b \<Rightarrow> write_block b (\<lambda>c. c\<lparr>weak_refs := weak_refs c + 1\<rparr>) hp)"

definition WeakPtr_null :: handle where
  "WeakPtr_null = \<lparr>ptr = None, block = None\<rparr>"

definition WeakPtr_copy :: "handle \<Rightarrow> heap \<Rightarrow> (handle, heap) outcome" where
  "WeakPtr_copy other hp =
     andThen (acquire_weak (block other) hp)
       (\<lambda>_ hp1. Returns \<lparr>ptr = ptr other, block = block other\<rparr> hp1)"

definition WeakPtr_move :: "handle \<Rightarrow> handle \<times> handle" where
  "WeakPtr_move other =
     (\<lparr>ptr = ptr other, block = block other\<rparr>, \<lparr>ptr = None, block = None\<rparr>)"

text \<open>\<^verbatim>\<open>WeakPtr(const SharedPtr<Y>& other)\<close>.\<close>

definition WeakPtr_from_shared :: "handle \<Rightarrow> heap \<Rightarrow> (handle, heap) outcome" where
  "WeakPtr_from_shared other hp =
     andThen (acquire_weak (block other) hp)
       (\<lambda>_ hp1. Returns \<lparr>ptr = ptr other, block = block other\<rparr> hp1)"

definition WeakPtr_dtor :: "handle \<Rightarrow> heap \<Rightarrow> (unit, heap) outcome" where
  "WeakPtr_dtor h hp =
     (case block h of
        None \<Rightarrow> Returns () hp
      | Some b \<Rightarrow>
          andThen (write_block b (\<lambda>c. c\<lparr>weak_refs := weak_refs c - 1\<rparr>) hp) (\<lambda>_ hp1.
          andThen (read_block b hp1) (\<lambda>cb hp1.
            if shared_refs cb + weak_refs cb = 0 then delete_block b hp1 else Returns () hp1)))"

definition WeakPtr_UseCount :: "handle \<Rightarrow> heap \<Rightarrow> (nat, heap) outcome" where
  "WeakPtr_UseCount h hp =
     (case block h of
        None \<Rightarrow> Returns 0 hp
      | Some b \<Rightarrow> andThen (read_block b hp) (\<lambda>cb hp1. Returns (size_t_of_int (shared_refs cb)) hp1))"

definition WeakPtr_Expired :: "handle \<Rightarrow> heap \<Rightarrow> (bool, heap) outcome" where
  "WeakPtr_Expired h hp = andThen (WeakPtr_UseCount h hp) (\<lambda>n hp1. Returns (n = 0) hp1)"

text \<open>The promoting constructor \<^verbatim>\<open>SharedPtr(const WeakPtr<Y>& other)\<close>.\<close>

definition SharedPtr_from_weak :: "handle \<Rightarrow> heap \<Rightarrow> (handle, heap) outcome" where
  "SharedPtr_from_weak other hp =
     andThen (WeakPtr_Expired other hp) (\<lambda>expired hp1.
       if expired then Throws BadWeakPtr hp1
       else andThen (acquire_shared (block other) hp1)
              (\<lambda>_ hp2. Returns \<lparr>ptr = ptr other, block = block other\<rparr> hp2))"

definition WeakPtr_Lock :: "handle \<Rightarrow> heap \<Rightarrow> (handle, heap) outcome" where
  "WeakPtr_Lock h hp =
     andThen (WeakPtr_Expired h hp) (\<lambda>expired hp1.
       if expired then Returns SharedPtr_null hp1 else SharedPtr_from_weak h hp1)"

section \<open>Handles as variables\<close>

text \<open>
  Assignment, \<^verbatim>\<open>Reset\<close> and \<^verbatim>\<open>Swap\<close> work on handle objects through references, and
  what \<^verbatim>\<open>a = a\<close> does depends on both references naming the same object. So the
  handle objects of a program live in a store: a list of \<^verbatim>\<open>SharedPtr\<close> variables and a
  list of \<^verbatim>\<open>WeakPtr\<close> variables, a variable being named by its index. A variable whose
  lifetime has ended holds \<open>None\<close>; using it is undefined behaviour.
\<close>

record state =
  mem :: heap
  shared_vars :: "handle option list"
  weak_vars :: "handle option list"

definition lookup :: "'a option list \<Rightarrow> nat \<Rightarrow> 'a option" where
  "lookup xs i = (if i < length xs then xs ! i else None)"

definition in_mem :: "state \<Rightarrow> ('a, heap) outcome \<Rightarrow> ('a, state) outcome" where
  "in_mem st m =
     (case m of
        Returns a hp \<Rightarrow> Returns a (st\<lparr>mem := hp\<rparr>)
      | Throws e hp \<Rightarrow> Throws e (st\<lparr>mem := hp\<rparr>)
      | Undefined u \<Rightarrow> Undefined u)"

text \<open>A declaration \<^verbatim>\<open>SharedPtr<T> v(...)\<close>: the constructed handle becomes a new variable.\<close>

definition declare_shared :: "state \<Rightarrow> (handle, heap) outcome \<Rightarrow> (unit, state) outcome" where
  "declare_shared st m =
     andThen (in_mem st m) (\<lambda>h st1. Returns () (st1\<lparr>shared_vars := shared_vars st1 @ [Some h]\<rparr>))"

definition declare_weak :: "state \<Rightarrow> (handle, heap) outcome \<Rightarrow> (unit, state) outcome" where
  "declare_weak st m =
     andThen (in_mem st m) (\<lambda>h st1. Returns () (st1\<lparr>weak_vars := weak_vars st1 @ [Some h]\<rparr>))"

subsection \<open>SharedPtr: assignment, Reset, Swap\<close>

text \<open>\<^verbatim>\<open>Swap\<close>: \<^verbatim>\<open>std::swap\<close> of both fields.\<close>

definition SharedPtr_Swap :: "nat \<Rightarrow> nat \<Rightarrow> state \<Rightarrow> (unit, state) outcome" where
  "SharedPtr_Swap this other st =
     (case (lookup (shared_vars st) this, lookup (shared_vars st) other) of
        (Some a, Some b) \<Rightarrow>
          Returns () (st\<lparr>shared_vars := (shared_vars st)[this := Some b, other := Some a]\<rparr>)
      | _ \<Rightarrow> Undefined DeadHandle)"

text \<open>
  The tail of every assignment and \<^verbatim>\<open>Reset\<close>: \<^verbatim>\<open>tmp.Swap(*this)\<close> for a temporary
  \<open>tmp\<close>, then the temporary, which now holds what \<^verbatim>\<open>*this\<close> held, is destroyed at the
  end of the full expression.
\<close>

definition SharedPtr_swap_in :: "dtor \<Rightarrow> nat \<Rightarrow> handle \<Rightarrow> state \<Rightarrow> (unit, state) outcome" where
  "SharedPtr_swap_in D this tmp st =
     (case lookup (shared_vars st) this of
        None \<Rightarrow> Undefined DeadHandle
      | Some old \<Rightarrow>
          in_mem (st\<lparr>shared_vars := (shared_vars st)[this := Some tmp]\<rparr>) (SharedPtr_dtor D old (mem st)))"

text \<open>\<^verbatim>\<open>operator=(const SharedPtr&)\<close>: \<^verbatim>\<open>SharedPtr<T>(other).Swap(*this)\<close>.\<close>

definition SharedPtr_assign :: "dtor \<Rightarrow> nat \<Rightarrow> nat \<Rightarrow> state \<Rightarrow> (unit, state) outcome" where
  "SharedPtr_assign D this other st =
     (case lookup (shared_vars st) other of
        None \<Rightarrow> Undefined DeadHandle
      | Some h \<Rightarrow>
          andThen (in_mem st (SharedPtr_copy h (mem st))) (\<lambda>tmp st1. SharedPtr_swap_in D this tmp st1))"

text \<open>\<^verbatim>\<open>operator=(SharedPtr&&)\<close>: \<^verbatim>\<open>SharedPtr<T>(std::move(other)).Swap(*this)\<close>.\<close>

definition SharedPtr_move_assign :: "dtor \<Rightarrow> nat \<Rightarrow> nat \<Rightarrow> state \<Rightarrow> (unit, state) outcome" where
  "SharedPtr_move_assign D this other st =
     (case lookup (shared_vars st) other of
        None \<Rightarrow> Undefined DeadHandle
      | Some h \<Rightarrow>
          (case SharedPtr_move h of
             (tmp, moved_from) \<Rightarrow>
               SharedPtr_swap_in D this tmp
                 (st\<lparr>shared_vars := (shared_vars st)[other := Some moved_from]\<rparr>)))"

text \<open>\<^verbatim>\<open>Reset()\<close>: \<^verbatim>\<open>SharedPtr().Swap(*this)\<close>.\<close>

definition SharedPtr_Reset :: "dtor \<Rightarrow> nat \<Rightarrow> state \<Rightarrow> (unit, state) outcome" where
  "SharedPtr_Reset D this st = SharedPtr_swap_in D this SharedPtr_null st"

text \<open>\<^verbatim>\<open>Reset(Y* ptr)\<close>: \<^verbatim>\<open>SharedPtr<T>(ptr).Swap(*this)\<close>.\<close>

definition SharedPtr_Reset_ptr :: "dtor \<Rightarrow> bool \<Rightarrow> nat \<Rightarrow> addr option \<Rightarrow> state \<Rightarrow> (unit, state) outcome" where
  "SharedPtr_Reset_ptr D alloc_ok this p st =
     andThen (in_mem st (SharedPtr_from_ptr alloc_ok p (mem st)))
       (\<lambda>tmp st1. SharedPtr_swap_in D this tmp st1)"

subsection \<open>WeakPtr: assignment, Reset, Swap\<close>

definition WeakPtr_Swap :: "nat \<Rightarrow> nat \<Rightarrow> state \<Rightarrow> (unit, state) outcome" where
  "WeakPtr_Swap this other st =
     (case (lookup (weak_vars st) this, lookup (weak_vars st) other) of
        (Some a, Some b) \<Rightarrow>
          Returns () (st\<lparr>weak_vars := (weak_vars st)[this := Some b, other := Some a]\<rparr>)
      | _ \<Rightarrow> Undefined DeadHandle)"

definition WeakPtr_swap_in :: "nat \<Rightarrow> handle \<Rightarrow> state \<Rightarrow> (unit, state) outcome" where
  "WeakPtr_swap_in this tmp st =
     (case lookup (weak_vars st) this of
        None \<Rightarrow> Undefined DeadHandle
      | Some old \<Rightarrow>
          in_mem (st\<lparr>weak_vars := (weak_vars st)[this := Some tmp]\<rparr>) (WeakPtr_dtor old (mem st)))"

text \<open>\<^verbatim>\<open>operator=(const WeakPtr&)\<close>: \<^verbatim>\<open>WeakPtr<T>(other).Swap(*this)\<close>.\<close>

definition WeakPtr_assign :: "nat \<Rightarrow> nat \<Rightarrow> state \<Rightarrow> (unit, state) outcome" where
  "WeakPtr_assign this other st =
     (case lookup (weak_vars st) other of
        None \<Rightarrow> Undefined DeadHandle
      | Some h \<Rightarrow>
          andThen (in_mem st (WeakPtr_copy h (mem st))) (\<lambda>tmp st1. WeakPtr_swap_in this tmp st1))"

text \<open>\<^verbatim>\<open>operator=(WeakPtr&&)\<close>: \<^verbatim>\<open>WeakPtr<T>(std::move(other)).Swap(*this)\<close>.\<close>

definition WeakPtr_move_assign :: "nat \<Rightarrow> nat \<Rightarrow> state \<Rightarrow> (unit, state) outcome" where
  "WeakPtr_move_assign this other st =
     (case lookup (weak_vars st) other of
        None \<Rightarrow> Undefined DeadHandle
      | Some h \<Rightarrow>
          (case WeakPtr_move h of
             (tmp, moved_from) \<Rightarrow>
               WeakPtr_swap_in this tmp
                 (st\<lparr>weak_vars := (weak_vars st)[other := Some moved_from]\<rparr>)))"

text \<open>\<^verbatim>\<open>operator=(const SharedPtr<Y>& sptr)\<close>: \<^verbatim>\<open>WeakPtr<T>(sptr).Swap(*this)\<close>.\<close>

definition WeakPtr_assign_shared :: "nat \<Rightarrow> nat \<Rightarrow> state \<Rightarrow> (unit, state) outcome" where
  "WeakPtr_assign_shared this sptr st =
     (case lookup (shared_vars st) sptr of
        None \<Rightarrow> Undefined DeadHandle
      | Some h \<Rightarrow>
          andThen (in_mem st (WeakPtr_from_shared h (mem st))) (\<lambda>tmp st1. WeakPtr_swap_in this tmp st1))"

text \<open>\<^verbatim>\<open>Reset()\<close>: \<^verbatim>\<open>WeakPtr<T>().Swap(*this)\<close>.\<close>

definition WeakPtr_Reset :: "nat \<Rightarrow> state \<Rightarrow> (unit, state) outcome" where
  "WeakPtr_Reset this st = WeakPtr_swap_in this WeakPtr_null st"

section \<open>Programs: sequences of operations on handles\<close>

text \<open>
  One operation of a client program. The \<open>New_\<close> operations declare a variable, which
  gets the next index of its store; the others work on the variables they name.
  The \<open>bool\<close> of an allocating operation says whether the allocator succeeds, the second
  \<open>bool\<close> of \<^verbatim>\<open>MakeShared\<close> whether the constructor of the managed type returns.
\<close>

datatype op =
    New_SharedPtr
  | New_SharedPtr_from_ptr bool "addr option"
  | New_MakeShared bool bool
  | New_SharedPtr_copy nat
  | New_SharedPtr_move nat
  | New_SharedPtr_alias nat "addr option"
  | New_SharedPtr_from_weak nat
  | New_SharedPtr_Lock nat
  | Assign_SharedPtr nat nat
  | MoveAssign_SharedPtr nat nat
  | Reset_SharedPtr nat
  | Reset_SharedPtr_ptr bool nat "addr option"
  | Swap_SharedPtr nat nat
  | Destroy_SharedPtr nat
  | New_WeakPtr
  | New_WeakPtr_copy nat
  | New_WeakPtr_move nat
  | New_WeakPtr_from_shared nat
  | Assign_WeakPtr nat nat
  | MoveAssign_WeakPtr nat nat
  | Assign_WeakPtr_shared nat nat
  | Reset_WeakPtr nat
  | Swap_WeakPtr nat nat
  | Destroy_WeakPtr nat

text \<open>With a live variable: undefined behaviour when the variable's lifetime has ended.\<close>

definition with_shared :: "state \<Rightarrow> nat \<Rightarrow> (handle \<Rightarrow> ('a, state) outcome) \<Rightarrow> ('a, state) outcome" where
  "with_shared st i f = (case lookup (shared_vars st) i of None \<Rightarrow> Undefined DeadHandle | Some h \<Rightarrow> f h)"

definition with_weak :: "state \<Rightarrow> nat \<Rightarrow> (handle \<Rightarrow> ('a, state) outcome) \<Rightarrow> ('a, state) outcome" where
  "with_weak st i f = (case lookup (weak_vars st) i of None \<Rightarrow> Undefined DeadHandle | Some h \<Rightarrow> f h)"

fun step :: "dtor \<Rightarrow> op \<Rightarrow> state \<Rightarrow> (unit, state) outcome" where
  "step D New_SharedPtr st = declare_shared st (Returns SharedPtr_null (mem st))"
| "step D (New_SharedPtr_from_ptr alloc_ok p) st = declare_shared st (SharedPtr_from_ptr alloc_ok p (mem st))"
| "step D (New_MakeShared alloc_ok ctor_ok) st = declare_shared st (MakeShared alloc_ok ctor_ok (mem st))"
| "step D (New_SharedPtr_copy i) st =
     with_shared st i (\<lambda>h. declare_shared st (SharedPtr_copy h (mem st)))"
| "step D (New_SharedPtr_move i) st =
     with_shared st i (\<lambda>h. case SharedPtr_move h of
        (new, moved_from) \<Rightarrow>
          Returns () (st\<lparr>shared_vars := (shared_vars st)[i := Some moved_from] @ [Some new]\<rparr>))"
| "step D (New_SharedPtr_alias i p) st =
     with_shared st i (\<lambda>h. declare_shared st (SharedPtr_alias h p (mem st)))"
| "step D (New_SharedPtr_from_weak j) st =
     with_weak st j (\<lambda>w. declare_shared st (SharedPtr_from_weak w (mem st)))"
| "step D (New_SharedPtr_Lock j) st =
     with_weak st j (\<lambda>w. declare_shared st (WeakPtr_Lock w (mem st)))"
| "step D (Assign_SharedPtr i j) st = SharedPtr_assign D i j st"
| "step D (MoveAssign_SharedPtr i j) st = SharedPtr_move_assign D i j st"
| "step D (Reset_SharedPtr i) st = SharedPtr_Reset D i st"
| "step D (Reset_SharedPtr_ptr alloc_ok i p) st = SharedPtr_Reset_ptr D alloc_ok i p st"
| "step D (Swap_SharedPtr i j) st = SharedPtr_Swap i j st"
| "step D (Destroy_SharedPtr i) st =
     with_shared st i (\<lambda>h.
       in_mem (st\<lparr>shared_vars := (shared_vars st)[i := None]\<rparr>) (SharedPtr_dtor D h (mem st)))"
| "step D New_WeakPtr st = declare_weak st (Returns WeakPtr_null (mem st))"
| "step D (New_WeakPtr_copy j) st =
     with_weak st j (\<lambda>w. declare_weak st (WeakPtr_copy w (mem st)))"
| "step D (New_WeakPtr_move j) st =
     with_weak st j (\<lambda>w. case WeakPtr_move w of
        (new, moved_from) \<Rightarrow>
          Returns () (st\<lparr>weak_vars := (weak_vars st)[j := Some moved_from] @ [Some new]\<rparr>))"
| "step D (New_WeakPtr_from_shared i) st =
     with_shared st i (\<lambda>h. declare_weak st (WeakPtr_from_shared h (mem st)))"
| "step D (Assign_WeakPtr j k) st = WeakPtr_assign j k st"
| "step D (MoveAssign_WeakPtr j k) st = WeakPtr_move_assign j k st"
| "step D (Assign_WeakPtr_shared j i) st = WeakPtr_assign_shared j i st"
| "step D (Reset_WeakPtr j) st = WeakPtr_Reset j st"
| "step D (Swap_WeakPtr j k) st = WeakPtr_Swap j k st"
| "step D (Destroy_WeakPtr j) st =
     with_weak st j (\<lambda>w.
       in_mem (st\<lparr>weak_vars := (weak_vars st)[j := None]\<rparr>) (WeakPtr_dtor w (mem st)))"

text \<open>
  A run of a program. An exception is caught by the client, which goes on in the state
  the operation threw in; undefined behaviour ends the run.
\<close>

fun run :: "dtor \<Rightarrow> op list \<Rightarrow> state \<Rightarrow> ub + state" where
  "run D [] st = Inr st"
| "run D (x # xs) st =
     (case step D x st of
        Returns _ st1 \<Rightarrow> run D xs st1
      | Throws e st1 \<Rightarrow> run D xs st1
      | Undefined u \<Rightarrow> Inl u)"

definition init :: state where
  "init = \<lparr>mem = \<lparr>blocks = Map.empty, next_block = 0, trace = []\<rparr>, shared_vars = [], weak_vars = []\<rparr>"

section \<open>Counting the handles of a block\<close>

text \<open>
  The live handles of a store, as a multiset of handle values, and the number of them
  whose block pointer is \<open>b\<close>. \<open>strong_count b st\<close> is the number of live
  \<^verbatim>\<open>SharedPtr\<close> variables of the state \<open>st\<close> that reference block \<open>b\<close>,
  \<open>weak_count b st\<close> the number of live \<^verbatim>\<open>WeakPtr\<close> variables.
\<close>

definition live :: "handle option list \<Rightarrow> handle multiset" where
  "live xs = image_mset the (filter_mset (\<lambda>v. v \<noteq> None) (mset xs))"

definition refs :: "block_id \<Rightarrow> handle multiset \<Rightarrow> nat" where
  "refs b M = size (filter_mset (\<lambda>h. block h = Some b) M)"

definition strong_count :: "block_id \<Rightarrow> state \<Rightarrow> nat" where
  "strong_count b st = refs b (live (shared_vars st))"

definition weak_count :: "block_id \<Rightarrow> state \<Rightarrow> nat" where
  "weak_count b st = refs b (live (weak_vars st))"

text \<open>
  What the bookkeeping of one block must be, given the block (or \<open>None\<close> when no block
  lives under the identifier), whether the identifier has been handed out, the numbers
  \<open>s\<close> and \<open>w\<close> of live \<^verbatim>\<open>SharedPtr\<close> and \<^verbatim>\<open>WeakPtr\<close> handles on it, and how often
  the trace records its deletion (\<open>f\<close>) and a call of its \<^verbatim>\<open>IfNoShared\<close> (\<open>r\<close>).
\<close>

fun block_inv :: "ControlBlockBase option \<Rightarrow> bool \<Rightarrow> nat \<Rightarrow> nat \<Rightarrow> nat \<Rightarrow> nat \<Rightarrow> bool" where
  "block_inv (Some cb) handed_out s w f r \<longleftrightarrow>
     handed_out \<and> shared_refs cb = int s \<and> weak_refs cb = int w \<and> 0 < s + w
     \<and> f = 0 \<and> r = (if s = 0 then 1 else 0)"
| "block_inv None handed_out s w f r \<longleftrightarrow>
     s = 0 \<and> w = 0 \<and> f = (if handed_out then 1 else 0) \<and> r = (if handed_out then 1 else 0)"

text \<open>
  A heap is in order for the live handles \<open>S\<close> (strong) and \<open>W\<close> (weak), temporaries
  included, when every block identifier is; a state is consistent when its heap is in
  order for the handles of its variables.
\<close>

definition heap_ok :: "heap \<Rightarrow> handle multiset \<Rightarrow> handle multiset \<Rightarrow> bool" where
  "heap_ok hp S W \<longleftrightarrow>
     (\<forall>b. block_inv (blocks hp b) (b < next_block hp) (refs b S) (refs b W)
            (count_list (trace hp) (FreeBlock b)) (count_list (trace hp) (Release b)))"

definition consistent :: "state \<Rightarrow> bool" where
  "consistent st \<longleftrightarrow> heap_ok (mem st) (live (shared_vars st)) (live (weak_vars st))"

text \<open>
  What one operation may do to a consistent state: return in a consistent state, having
  only added to the trace, taken at most one strong handle from any block and left a
  strong handle on every block it allocated; throw in the state it started in; or meet a
  variable whose lifetime has ended.
\<close>

definition step_ok :: "state \<Rightarrow> (unit, state) outcome \<Rightarrow> bool" where
  "step_ok st out \<longleftrightarrow>
     (case out of
        Returns _ st' \<Rightarrow>
          consistent st' \<and> next_block (mem st) \<le> next_block (mem st')
          \<and> (\<exists>evs. trace (mem st') = trace (mem st) @ evs)
          \<and> (\<forall>b. strong_count b st \<le> Suc (strong_count b st'))
          \<and> (\<forall>b. next_block (mem st) \<le> b \<and> b < next_block (mem st') \<longrightarrow> 0 < strong_count b st')
      | Throws e st' \<Rightarrow> st' = st
      | Undefined u \<Rightarrow> u = DeadHandle)"

text \<open>
  The object events a call of \<^verbatim>\<open>IfNoShared\<close> records after the call itself, and the
  variant it leaves in the block, for a managed type that owns no handle.
\<close>

definition object_events :: "block_id \<Rightarrow> variant \<Rightarrow> event list" where
  "object_events b v =
     (case v of
        ControlBlockPtr None \<Rightarrow> []
      | ControlBlockPtr (Some q) \<Rightarrow> [Destroy q, Dealloc q]
      | ControlBlockHolder \<Rightarrow> [Destroy (Storage b)])"

definition released :: "variant \<Rightarrow> variant" where
  "released v = (case v of ControlBlockPtr p \<Rightarrow> ControlBlockPtr None | ControlBlockHolder \<Rightarrow> ControlBlockHolder)"

section \<open>A client statement that hands over a new object\<close>




section \<open>Example heaps and managed types\<close>

text \<open>
  Heaps for the concrete instances below: one block, number 0, with the given counters;
  a \<^verbatim>\<open>ControlBlockPtr\<close> owning the object at address 7, a \<^verbatim>\<open>ControlBlockPtr\<close> made from
  a null pointer, or a \<^verbatim>\<open>ControlBlockHolder\<close>.
\<close>

definition ptr_block :: "int \<Rightarrow> int \<Rightarrow> ControlBlockBase" where
  "ptr_block s w = \<lparr>shared_refs = s, weak_refs = w, variant = ControlBlockPtr (Some (Addr 7))\<rparr>"


definition holder_block :: "int \<Rightarrow> int \<Rightarrow> ControlBlockBase" where
  "holder_block s w = \<lparr>shared_refs = s, weak_refs = w, variant = ControlBlockHolder\<rparr>"

definition one_block :: "ControlBlockBase \<Rightarrow> heap" where
  "one_block cb = \<lparr>blocks = [0 \<mapsto> cb], next_block = 1, trace = []\<rparr>"

definition example_state :: state where
  "example_state =
     \<lparr>mem = one_block (ptr_block 1 1),
      shared_vars = [Some \<lparr>ptr = Some (Addr 7), block = Some 0\<rparr>],
      weak_vars = [Some \<lparr>ptr = Some (Addr 7), block = Some 0\<rparr>]\<rparr>"

text \<open>
  A managed type that owns a handle: \<^verbatim>\<open>struct Node { WeakPtr<Node> self; };\<close>, with
  \<^verbatim>\<open>self\<close> observing the object itself through block 0. Its destructor destroys the
  member.
\<close>

definition Node_dtor :: dtor where
  "Node_dtor q hp = WeakPtr_dtor \<lparr>ptr = Some q, block = Some 0\<rparr> hp"

text \<open>
  The state after \<^verbatim>\<open>auto p = MakeShared<Node>(); p->self = p;\<close>: variable 0 of each
  store, \<open>p\<close> and the member \<open>self\<close>, on block 0.
\<close>

definition made_shared_state :: state where
  "made_shared_state =
     \<lparr>mem = one_block (holder_block 1 1),
      shared_vars = [Some \<lparr>ptr = Some (Storage 0), block = Some 0\<rparr>],
      weak_vars = [Some \<lparr>ptr = Some (Storage 0), block = Some 0\<rparr>]\<rparr>"



section \<open>Basic facts\<close>

lemma andThen_simps [simp]:
  "andThen (Returns a s) f = f a s"
  "andThen (Throws e s) f = Throws e s"
  "andThen (Undefined u) f = Undefined u"
  by (simp_all add: andThen_def)

lemma noexcept_call_simps [simp]:
  "noexcept_call (Returns a s) = Returns a s"
  "noexcept_call (Throws e s) = Undefined Terminate"
  "noexcept_call (Undefined u) = Undefined u"
  by (simp_all add: noexcept_call_def)

lemmas heap_defs = read_block_def write_block_def new_block_def delete_block_def
  delete_object_def IfNoShared_def acquire_shared_def acquire_weak_def trivial_dtor_def
  new_holder_def

lemmas handle_defs = SharedPtr_null_def SharedPtr_from_ptr_def SharedPtr_from_block_def
  SharedPtr_copy_def SharedPtr_move_def SharedPtr_alias_def SharedPtr_UseCount_def
  SharedPtr_Get_def SharedPtr_bool_def SharedPtr_dtor_def MakeShared_def
  WeakPtr_null_def WeakPtr_copy_def WeakPtr_move_def WeakPtr_from_shared_def WeakPtr_dtor_def
  WeakPtr_UseCount_def WeakPtr_Expired_def SharedPtr_from_weak_def WeakPtr_Lock_def

lemmas store_defs = lookup_def in_mem_def declare_shared_def declare_weak_def
  SharedPtr_Swap_def SharedPtr_swap_in_def SharedPtr_assign_def SharedPtr_move_assign_def
  SharedPtr_Reset_def SharedPtr_Reset_ptr_def WeakPtr_Swap_def WeakPtr_swap_in_def
  WeakPtr_assign_def WeakPtr_move_assign_def WeakPtr_assign_shared_def WeakPtr_Reset_def
  with_shared_def with_weak_def

lemma size_t_of_int_nonneg [simp]: "0 \<le> i \<Longrightarrow> size_t_of_int i = nat i"
  by (simp add: size_t_of_int_def)

section \<open>Empty handles\<close>

text \<open>
  Claim C9. Every operation on an empty handle (null block pointer, whatever the observed
  pointer) leaves the heap as it is: copying or moving an empty \<^verbatim>\<open>SharedPtr\<close> or
  \<^verbatim>\<open>WeakPtr\<close> yields a handle with a null block pointer and changes no counter, destroying
  it frees nothing and records no event, \<^verbatim>\<open>UseCount()\<close> is 0, and a \<^verbatim>\<open>WeakPtr\<close> made
  from an empty \<^verbatim>\<open>SharedPtr\<close> is empty and expired, with no weak count incremented.
\<close>

theorem empty_handle_noop:
  "SharedPtr_copy \<lparr>ptr = p, block = None\<rparr> hp = Returns \<lparr>ptr = p, block = None\<rparr> hp
   \<and> SharedPtr_move \<lparr>ptr = p, block = None\<rparr> = (\<lparr>ptr = p, block = None\<rparr>, \<lparr>ptr = None, block = None\<rparr>)
   \<and> WeakPtr_copy \<lparr>ptr = p, block = None\<rparr> hp = Returns \<lparr>ptr = p, block = None\<rparr> hp
   \<and> WeakPtr_move \<lparr>ptr = p, block = None\<rparr> = (\<lparr>ptr = p, block = None\<rparr>, \<lparr>ptr = None, block = None\<rparr>)
   \<and> SharedPtr_dtor D \<lparr>ptr = p, block = None\<rparr> hp = Returns () hp
   \<and> WeakPtr_dtor \<lparr>ptr = p, block = None\<rparr> hp = Returns () hp
   \<and> SharedPtr_UseCount \<lparr>ptr = p, block = None\<rparr> hp = Returns 0 hp
   \<and> WeakPtr_UseCount \<lparr>ptr = p, block = None\<rparr> hp = Returns 0 hp
   \<and> WeakPtr_from_shared \<lparr>ptr = p, block = None\<rparr> hp = Returns \<lparr>ptr = p, block = None\<rparr> hp
   \<and> WeakPtr_Expired \<lparr>ptr = p, block = None\<rparr> hp = Returns True hp"
  by (simp add: handle_defs heap_defs)

section \<open>The pointer-owning control block\<close>

text \<open>
  Claim C10. \<^verbatim>\<open>ControlBlockPtr::IfNoShared\<close> is idempotent. For a managed type that owns
  no handle, the first call on a live block records the call, deletes the owned pointer
  (destructor, then deallocation; nothing for a null pointer) and stores the null
  pointer; a second call records the call and does nothing else. For any managed type:
  whenever a call returns, the next call deletes nothing and changes nothing but the
  record of calls.
\<close>

theorem IfNoShared_ptr_idempotent:
  assumes "blocks hp b = Some cb" and "variant cb = ControlBlockPtr p"
  shows "(\<exists>hp1. IfNoShared trivial_dtor b hp = Returns () hp1
            \<and> trace hp1 = trace hp @ Release b # (case p of None \<Rightarrow> [] | Some q \<Rightarrow> [Destroy q, Dealloc q])
            \<and> blocks hp1 = (blocks hp)(b \<mapsto> cb\<lparr>variant := ControlBlockPtr None\<rparr>)
            \<and> IfNoShared trivial_dtor b hp1 = Returns () (hp1\<lparr>trace := trace hp1 @ [Release b]\<rparr>))
       \<and> (\<forall>D hp'. IfNoShared D b hp = Returns () hp' \<longrightarrow>
             IfNoShared D b hp' = Returns () (hp'\<lparr>trace := trace hp' @ [Release b]\<rparr>))"
  using assms
  by (auto simp: heap_defs andThen_def split: option.splits outcome.splits variant.splits)

theorem IfNoShared_ptr_idempotent_witness:
  "blocks (one_block (ptr_block 0 1)) 0 = Some (ptr_block 0 1)
   \<and> variant (ptr_block 0 1) = ControlBlockPtr (Some (Addr 7))
   \<and> (\<exists>hp1. IfNoShared trivial_dtor 0 (one_block (ptr_block 0 1)) = Returns () hp1
         \<and> trace hp1 = [Release 0, Destroy (Addr 7), Dealloc (Addr 7)]
         \<and> IfNoShared trivial_dtor 0 hp1 = Returns () (hp1\<lparr>trace := trace hp1 @ [Release 0]\<rparr>))"
proof -
  have live: "blocks (one_block (ptr_block 0 1)) 0 = Some (ptr_block 0 1)"
    by (simp add: one_block_def)
  have var: "variant (ptr_block 0 1) = ControlBlockPtr (Some (Addr 7))"
    by (simp add: ptr_block_def)
  show ?thesis
    using IfNoShared_ptr_idempotent [OF live var] live var
    by (auto simp: one_block_def)
qed

section \<open>Promotion of a WeakPtr\<close>

text \<open>
  Claim C4. When the source \<^verbatim>\<open>WeakPtr\<close> is expired (its block pointer is null or the
  strong count of its block is zero), the promoting constructor throws \<^verbatim>\<open>BadWeakPtr\<close> in
  the heap it was called in: no counter of any block has changed, so the same call throws
  again. (The source is passed by reference to const; the model passes its value and
  returns no new one.) When it is not expired, the constructor returns a handle with the
  fields of the source, and the heap differs only in the strong count of that block, which
  is one higher.
\<close>

theorem promotion_throws_iff_expired:
  "(WeakPtr_Expired w hp = Returns True hp \<longrightarrow>
      SharedPtr_from_weak w hp = Throws BadWeakPtr hp)
   \<and> (WeakPtr_Expired w hp = Returns False hp \<longrightarrow>
      (\<exists>b cb. block w = Some b \<and> blocks hp b = Some cb
         \<and> SharedPtr_from_weak w hp =
             Returns \<lparr>ptr = ptr w, block = Some b\<rparr>
               (hp\<lparr>blocks := (blocks hp)(b \<mapsto> cb\<lparr>shared_refs := shared_refs cb + 1\<rparr>)\<rparr>)))"
  by (auto simp: handle_defs heap_defs split: option.splits)

theorem promotion_throws_iff_expired_witness:
  "WeakPtr_Expired \<lparr>ptr = Some (Addr 7), block = Some 0\<rparr> (one_block (ptr_block 0 1)) = Returns True (one_block (ptr_block 0 1))
   \<and> SharedPtr_from_weak \<lparr>ptr = Some (Addr 7), block = Some 0\<rparr> (one_block (ptr_block 0 1)) = Throws BadWeakPtr (one_block (ptr_block 0 1))
   \<and> WeakPtr_Expired \<lparr>ptr = Some (Addr 7), block = Some 0\<rparr> (one_block (ptr_block 1 1)) = Returns False (one_block (ptr_block 1 1))
   \<and> SharedPtr_from_weak \<lparr>ptr = Some (Addr 7), block = Some 0\<rparr> (one_block (ptr_block 1 1)) =
        Returns \<lparr>ptr = Some (Addr 7), block = Some 0\<rparr> (one_block (ptr_block 2 1))"
proof -
  let ?w = "\<lparr>ptr = Some (Addr 7), block = Some 0\<rparr>"
  have e1: "WeakPtr_Expired ?w (one_block (ptr_block 0 1)) = Returns True (one_block (ptr_block 0 1))"
    by (simp add: handle_defs heap_defs one_block_def ptr_block_def)
  have e2: "WeakPtr_Expired ?w (one_block (ptr_block 1 1)) = Returns False (one_block (ptr_block 1 1))"
    by (simp add: handle_defs heap_defs one_block_def ptr_block_def)
  from promotion_throws_iff_expired [of ?w "one_block (ptr_block 0 1)"] e1
  have t1: "SharedPtr_from_weak ?w (one_block (ptr_block 0 1)) = Throws BadWeakPtr (one_block (ptr_block 0 1))"
    by blast
  from promotion_throws_iff_expired [of ?w "one_block (ptr_block 1 1)"] e2
  have t2: "SharedPtr_from_weak ?w (one_block (ptr_block 1 1)) = Returns ?w (one_block (ptr_block 2 1))"
    by (auto simp: one_block_def ptr_block_def)
  show ?thesis using e1 e2 t1 t2 by simp
qed

section \<open>Lock\<close>








section \<open>Combined allocation\<close>

text \<open>
  \<^verbatim>\<open>MakeShared\<close>, when the allocation succeeds and the constructor of the managed type
  returns, gives a handle on a fresh \<^verbatim>\<open>ControlBlockHolder\<close> that observes the storage
  inside the block and reports \<^verbatim>\<open>UseCount() == 1\<close>. For a managed type that owns no
  handle, destroying that handle calls \<^verbatim>\<open>IfNoShared\<close> once, which runs the destructor of
  the object once, in place, and then deletes the block: no deallocation of the object is
  recorded, its storage goes with the block. The same holds for the last strong handle of
  any holder block: one destructor call in place, no deallocation of the object, and the
  block is deleted in that step exactly when no weak reference is left.
\<close>

lemma MakeShared_plain_type:
  "(\<exists>h hp1. MakeShared True True hp = Returns h hp1
       \<and> h = \<lparr>ptr = Some (Storage (next_block hp)), block = Some (next_block hp)\<rparr>
       \<and> blocks hp1 (next_block hp) = Some \<lparr>shared_refs = 1, weak_refs = 0, variant = ControlBlockHolder\<rparr>
       \<and> trace hp1 = trace hp
       \<and> SharedPtr_UseCount h hp1 = Returns 1 hp1
       \<and> (\<exists>hp2. SharedPtr_dtor trivial_dtor h hp1 = Returns () hp2
             \<and> trace hp2 = trace hp @ [Release (next_block hp), Destroy (Storage (next_block hp)), FreeBlock (next_block hp)]
             \<and> blocks hp2 (next_block hp) = None))
   \<and> (\<forall>h b cb. block h = Some b \<and> blocks hp b = Some cb \<and> variant cb = ControlBlockHolder \<and> shared_refs cb = 1 \<longrightarrow>
        (\<exists>hp'. SharedPtr_dtor trivial_dtor h hp = Returns () hp'
           \<and> trace hp' = trace hp @ [Release b, Destroy (Storage b)] @ (if weak_refs cb = 0 then [FreeBlock b] else [])
           \<and> (blocks hp' b = None \<longleftrightarrow> weak_refs cb = 0)))"
  by (auto simp: handle_defs heap_defs split: option.splits)

text \<open>
  Claim C5 says that a handle returned by \<^verbatim>\<open>MakeShared\<close> has use count 1, and that
  destroying the last strong handle runs the destructor of the object once, in place, the
  storage being freed only together with the control block. The first part holds. The
  second fails for a managed type that holds a weak handle to itself,
  \<^verbatim>\<open>struct Node { WeakPtr<Node> self; };\<close>, after
  \<^verbatim>\<open>auto p = MakeShared<Node>(); p->self = p;\<close>. At the end of the scope
  \<^verbatim>\<open>~SharedPtr\<close> takes \<^verbatim>\<open>shared_refs\<close> to 0 and \<^verbatim>\<open>IfNoShared\<close> runs \<^verbatim>\<open>~Node\<close> in
  place; the \<^verbatim>\<open>~WeakPtr\<close> of the member takes \<^verbatim>\<open>weak_refs\<close> to 0, finds both counters 0
  and deletes the block. So the storage is freed while the destructor of the object in it
  is still running; \<^verbatim>\<open>~SharedPtr\<close> then reads the counters of the deleted block, and
  deletes it again if it reads the zeros left there. The model stops at that read. In the
  theorem: the result of \<^verbatim>\<open>MakeShared\<close> and its use count; the state after the
  assignment; the call of \<^verbatim>\<open>IfNoShared\<close> that \<^verbatim>\<open>~SharedPtr\<close> makes, which returns with
  the block deleted; and the destructor call as a whole, alone and as the last operation of
  the program.
\<close>

theorem MakeShared_self_weak_storage_freed_in_destructor:
  "MakeShared True True (mem init) =
     Returns \<lparr>ptr = Some (Storage 0), block = Some 0\<rparr> (one_block (holder_block 1 0))
   \<and> SharedPtr_UseCount \<lparr>ptr = Some (Storage 0), block = Some 0\<rparr> (one_block (holder_block 1 0)) =
       Returns 1 (one_block (holder_block 1 0))
   \<and> run Node_dtor [New_WeakPtr, New_MakeShared True True, Assign_WeakPtr_shared 0 0] init =
       Inr made_shared_state
   \<and> IfNoShared Node_dtor 0 (one_block (holder_block 0 1)) =
       Returns () \<lparr>blocks = Map.empty, next_block = 1, trace = [Release 0, Destroy (Storage 0), FreeBlock 0]\<rparr>
   \<and> SharedPtr_dtor Node_dtor \<lparr>ptr = Some (Storage 0), block = Some 0\<rparr> (one_block (holder_block 1 1)) =
       Undefined UseAfterFree
   \<and> step Node_dtor (Destroy_SharedPtr 0) made_shared_state = Undefined UseAfterFree
   \<and> step trivial_dtor (Destroy_SharedPtr 0) made_shared_state =
       Returns () \<lparr>mem = \<lparr>blocks = [0 \<mapsto> holder_block 0 1], next_block = 1,
                            trace = [Release 0, Destroy (Storage 0)]\<rparr>,
                    shared_vars = [None],
                    weak_vars = [Some \<lparr>ptr = Some (Storage 0), block = Some 0\<rparr>]\<rparr>"
  by (simp add: init_def made_shared_state_def one_block_def holder_block_def Node_dtor_def
      handle_defs heap_defs store_defs)

section \<open>The aliasing constructor\<close>

text \<open>
  Claim C6. Let \<open>d\<close> be a \<^verbatim>\<open>SharedPtr\<close> whose block is alive, with a positive strong
  count (\<open>d\<close> itself is counted) and a weak count that is not negative. For every pointer
  \<open>p\<close>, null included, the aliasing constructor \<^verbatim>\<open>SharedPtr b(d, p)\<close> returns a handle
  with \<^verbatim>\<open>Get() == p\<close> on the block of \<open>d\<close>; the strong count is one higher, and both
  handles report it as their use count. Destroying \<open>d\<close> afterwards, for any managed type,
  releases nothing: no event is recorded, the block is still there with the counters it
  had before the aliasing handle was made, and \<open>b\<close> still holds its strong reference.
\<close>

theorem aliasing_constructor:
  assumes "block d = Some b" and "blocks hp b = Some cb" and "0 < shared_refs cb" and "0 \<le> weak_refs cb"
  shows "\<exists>a hp1. SharedPtr_alias d p hp = Returns a hp1
           \<and> SharedPtr_Get a = p
           \<and> block a = block d
           \<and> blocks hp1 = (blocks hp)(b \<mapsto> cb\<lparr>shared_refs := shared_refs cb + 1\<rparr>)
           \<and> SharedPtr_UseCount a hp1 = SharedPtr_UseCount d hp1
           \<and> SharedPtr_UseCount a hp1 = Returns (nat (shared_refs cb) + 1) hp1
           \<and> (\<exists>hp2. SharedPtr_dtor D d hp1 = Returns () hp2
                 \<and> trace hp2 = trace hp
                 \<and> blocks hp2 = blocks hp
                 \<and> SharedPtr_UseCount a hp2 = Returns (nat (shared_refs cb)) hp2)"
  using assms
  by (auto simp: handle_defs heap_defs nat_add_distrib split: option.splits)

theorem aliasing_constructor_witness:
  "block \<lparr>ptr = Some (Addr 7), block = Some 0\<rparr> = Some 0
   \<and> blocks (one_block (ptr_block 1 0)) 0 = Some (ptr_block 1 0)
   \<and> 0 < shared_refs (ptr_block 1 0) \<and> 0 \<le> weak_refs (ptr_block 1 0)
   \<and> (\<exists>a hp1. SharedPtr_alias \<lparr>ptr = Some (Addr 7), block = Some 0\<rparr> (Some (Addr 8)) (one_block (ptr_block 1 0)) = Returns a hp1
         \<and> SharedPtr_Get a = Some (Addr 8)
         \<and> SharedPtr_UseCount a hp1 = Returns 2 hp1
         \<and> (\<exists>hp2. SharedPtr_dtor trivial_dtor \<lparr>ptr = Some (Addr 7), block = Some 0\<rparr> hp1 = Returns () hp2
               \<and> trace hp2 = []
               \<and> SharedPtr_UseCount a hp2 = Returns 1 hp2))"
proof -
  let ?d = "\<lparr>ptr = Some (Addr 7), block = Some 0\<rparr>"
  have h1: "block ?d = Some 0" by simp
  have h2: "blocks (one_block (ptr_block 1 0)) 0 = Some (ptr_block 1 0)" by (simp add: one_block_def)
  have h3: "0 < shared_refs (ptr_block 1 0)" by (simp add: ptr_block_def)
  have h4: "0 \<le> weak_refs (ptr_block 1 0)" by (simp add: ptr_block_def)
  have v: "nat (shared_refs (ptr_block 1 0)) = 1" "trace (one_block (ptr_block 1 0)) = []"
    by (simp_all add: ptr_block_def one_block_def)
  from aliasing_constructor [OF h1 h2 h3 h4, of "Some (Addr 8)" trivial_dtor]
  obtain a hp1 hp2 where
    "SharedPtr_alias ?d (Some (Addr 8)) (one_block (ptr_block 1 0)) = Returns a hp1"
    "SharedPtr_Get a = Some (Addr 8)"
    "SharedPtr_UseCount a hp1 = Returns (nat (shared_refs (ptr_block 1 0)) + 1) hp1"
    "SharedPtr_dtor trivial_dtor ?d hp1 = Returns () hp2"
    "trace hp2 = trace (one_block (ptr_block 1 0))"
    "SharedPtr_UseCount a hp2 = Returns (nat (shared_refs (ptr_block 1 0))) hp2"
    by blast
  with v have "SharedPtr_alias ?d (Some (Addr 8)) (one_block (ptr_block 1 0)) = Returns a hp1
      \<and> SharedPtr_Get a = Some (Addr 8)
      \<and> SharedPtr_UseCount a hp1 = Returns 2 hp1
      \<and> (\<exists>hp2. SharedPtr_dtor trivial_dtor ?d hp1 = Returns () hp2
            \<and> trace hp2 = []
            \<and> SharedPtr_UseCount a hp2 = Returns 1 hp2)"
    by auto
  with h1 h2 h3 h4 show ?thesis by blast
qed

section \<open>Self-assignment\<close>

lemma handle_eta [simp]: "\<lparr>ptr = ptr h, block = block h\<rparr> = (h :: handle)"
  by (cases h) simp

lemma handle_eta_None [simp]: "block h = None \<Longrightarrow> \<lparr>ptr = ptr h, block = None\<rparr> = (h :: handle)"
  by (cases h) simp

lemma handle_eta_Some [simp]: "block h = Some b \<Longrightarrow> \<lparr>ptr = ptr h, block = Some b\<rparr> = (h :: handle)"
  by (cases h) simp

lemma state_vars_update_id [simp]:
  "shared_vars st ! i = Some h \<Longrightarrow> st\<lparr>shared_vars := (shared_vars st)[i := Some h]\<rparr> = st"
  "weak_vars st ! j = Some h \<Longrightarrow> st\<lparr>weak_vars := (weak_vars st)[j := Some h]\<rparr> = st"
  by (metis list_update_id state.surjective state.update_convs(2) , metis list_update_id state.surjective state.update_convs(3))

lemma block_update_back [simp]:
  "blocks hp b = Some cb \<Longrightarrow> hp\<lparr>blocks := (blocks hp)(b \<mapsto> cb)\<rparr> = hp"
  by (simp add: map_upd_triv)

lemma SharedPtr_self_copy_assign:
  assumes "lookup (shared_vars st) i = Some h"
    and "\<forall>b. block h = Some b \<longrightarrow> (\<exists>cb. blocks (mem st) b = Some cb \<and> 0 < shared_refs cb \<and> 0 \<le> weak_refs cb)"
  shows "SharedPtr_assign D i i st = Returns () st"
proof (cases "block h")
  case None
  with assms(1) show ?thesis
    by (auto simp: store_defs handle_defs heap_defs split: if_splits)
next
  case (Some b)
  with assms(2) obtain cb where "blocks (mem st) b = Some cb" "0 < shared_refs cb" "0 \<le> weak_refs cb"
    by auto
  with assms(1) Some show ?thesis
    by (auto simp: store_defs handle_defs heap_defs split: if_splits)
qed

lemma SharedPtr_self_move_assign:
  assumes "lookup (shared_vars st) i = Some h"
  shows "SharedPtr_move_assign D i i st = Returns () st"
  using assms
  by (auto simp: store_defs handle_defs heap_defs split: if_splits)

lemma WeakPtr_self_copy_assign:
  assumes "lookup (weak_vars st) i = Some h"
    and "\<forall>b. block h = Some b \<longrightarrow> (\<exists>cb. blocks (mem st) b = Some cb \<and> 0 \<le> shared_refs cb \<and> 0 < weak_refs cb)"
  shows "WeakPtr_assign i i st = Returns () st"
proof (cases "block h")
  case None
  with assms(1) show ?thesis
    by (auto simp: store_defs handle_defs heap_defs split: if_splits)
next
  case (Some b)
  with assms(2) obtain cb where "blocks (mem st) b = Some cb" "0 \<le> shared_refs cb" "0 < weak_refs cb"
    by auto
  with assms(1) Some show ?thesis
    by (auto simp: store_defs handle_defs heap_defs split: if_splits)
qed

lemma WeakPtr_self_move_assign:
  assumes "lookup (weak_vars st) i = Some h"
  shows "WeakPtr_move_assign i i st = Returns () st"
  using assms
  by (auto simp: store_defs handle_defs heap_defs split: if_splits)

text \<open>
  Claim C8. Let a \<^verbatim>\<open>SharedPtr\<close> variable be alive, its block (if it has one) alive with a
  positive strong count and a weak count that is not negative; then \<^verbatim>\<open>h = h\<close> and
  \<^verbatim>\<open>h = std::move(h)\<close> return in the state they started in: every counter, the handle's
  observed pointer and block, every other variable and the trace are as before. The same
  for a \<^verbatim>\<open>WeakPtr\<close> variable whose block has a positive weak count and a strong count that
  is not negative. Copy assignment builds the temporary copy (count up), swaps, and destroys
  the temporary (count down, not reaching zero); move assignment empties the variable into
  the temporary, swaps it back, and destroys an empty temporary.
\<close>

theorem self_assignment_unchanged:
  "(lookup (shared_vars st) i = Some h
      \<and> (\<forall>b. block h = Some b \<longrightarrow>
            (\<exists>cb. blocks (mem st) b = Some cb \<and> 0 < shared_refs cb \<and> 0 \<le> weak_refs cb))
    \<longrightarrow> SharedPtr_assign D i i st = Returns () st \<and> SharedPtr_move_assign D i i st = Returns () st)
   \<and> (lookup (weak_vars st) j = Some w
      \<and> (\<forall>b. block w = Some b \<longrightarrow>
            (\<exists>cb. blocks (mem st) b = Some cb \<and> 0 \<le> shared_refs cb \<and> 0 < weak_refs cb))
    \<longrightarrow> WeakPtr_assign j j st = Returns () st \<and> WeakPtr_move_assign j j st = Returns () st)"
  using SharedPtr_self_copy_assign [of st i h D] SharedPtr_self_move_assign [of st i h D]
    WeakPtr_self_copy_assign [of st j w] WeakPtr_self_move_assign [of st j w]
  by blast

theorem self_assignment_unchanged_witness:
  "lookup (shared_vars example_state) 0 = Some \<lparr>ptr = Some (Addr 7), block = Some 0\<rparr>
   \<and> lookup (weak_vars example_state) 0 = Some \<lparr>ptr = Some (Addr 7), block = Some 0\<rparr>
   \<and> blocks (mem example_state) 0 = Some (ptr_block 1 1)
   \<and> SharedPtr_assign trivial_dtor 0 0 example_state = Returns () example_state
   \<and> SharedPtr_move_assign trivial_dtor 0 0 example_state = Returns () example_state
   \<and> WeakPtr_assign 0 0 example_state = Returns () example_state
   \<and> WeakPtr_move_assign 0 0 example_state = Returns () example_state"
proof -
  let ?h = "\<lparr>ptr = Some (Addr 7), block = Some 0\<rparr>"
  have vars: "lookup (shared_vars example_state) 0 = Some ?h" "lookup (weak_vars example_state) 0 = Some ?h"
    by (simp_all add: example_state_def lookup_def)
  have blk: "blocks (mem example_state) 0 = Some (ptr_block 1 1)"
    by (simp add: example_state_def one_block_def)
  have s: "\<forall>b. block ?h = Some b \<longrightarrow>
      (\<exists>cb. blocks (mem example_state) b = Some cb \<and> 0 < shared_refs cb \<and> 0 \<le> weak_refs cb)"
    using blk by (simp add: ptr_block_def)
  have w: "\<forall>b. block ?h = Some b \<longrightarrow>
      (\<exists>cb. blocks (mem example_state) b = Some cb \<and> 0 \<le> shared_refs cb \<and> 0 < weak_refs cb)"
    using blk by (simp add: ptr_block_def)
  show ?thesis
    using self_assignment_unchanged [of example_state 0 ?h trivial_dtor 0 ?h] vars blk s w
    by blast
qed

section \<open>The counters and the live handles\<close>

lemma refs_simps [simp]:
  "refs b {#} = 0"
  "refs b (add_mset h M) = (if block h = Some b then Suc (refs b M) else refs b M)"
  "refs b (M + N) = refs b M + refs b N"
  by (simp_all add: refs_def)

lemma live_simps [simp]:
  "live [] = {#}"
  "live (None # xs) = live xs"
  "live (Some h # xs) = add_mset h (live xs)"
  "live (xs @ ys) = live xs + live ys"
  by (simp_all add: live_def)

lemma live_update:
  "i < length xs \<Longrightarrow> live (xs[i := v]) = live (xs[i := None]) + (case v of None \<Rightarrow> {#} | Some h \<Rightarrow> {#h#})"
proof (induction xs arbitrary: i)
  case Nil
  then show ?case by simp
next
  case (Cons x xs)
  then show ?case
    by (cases i; cases x; cases v) simp_all
qed

lemma live_lookup:
  assumes "lookup xs i = Some h"
  shows "live xs = add_mset h (live (xs[i := None]))"
proof -
  from assms have i: "i < length xs" and x: "xs ! i = Some h"
    by (auto simp: lookup_def split: if_splits)
  from x have "xs[i := Some h] = xs"
    by (metis list_update_id)
  with live_update [OF i, of "Some h"] show ?thesis by simp
qed

lemma live_update_Some:
  "i < length xs \<Longrightarrow> live (xs[i := Some h]) = add_mset h (live (xs[i := None]))"
  using live_update [of i xs "Some h"] by simp

lemma heap_okD:
  "heap_ok hp S W \<Longrightarrow> block_inv (blocks hp b) (b < next_block hp) (refs b S) (refs b W)
            (count_list (trace hp) (FreeBlock b)) (count_list (trace hp) (Release b))"
  by (simp add: heap_ok_def)

lemma heap_ok_held:
  "heap_ok hp S W \<Longrightarrow> 0 < refs b S + refs b W \<Longrightarrow> \<exists>cb. blocks hp b = Some cb"
  using heap_okD [of hp S W b] by (cases "blocks hp b") auto

text \<open>Handles with a null block pointer do not count.\<close>

lemma heap_ok_add_empty [simp]:
  "block h = None \<Longrightarrow> heap_ok hp (add_mset h S) W = heap_ok hp S W"
  "block h = None \<Longrightarrow> heap_ok hp S (add_mset h W) = heap_ok hp S W"
  by (simp_all add: heap_ok_def)

lemma heap_ok_add_empty2 [simp]:
  "heap_ok hp (add_mset h (add_mset \<lparr>ptr = p, block = None\<rparr> S)) W = heap_ok hp (add_mset h S) W"
  "heap_ok hp S (add_mset h (add_mset \<lparr>ptr = p, block = None\<rparr> W)) = heap_ok hp S (add_mset h W)"
  by (simp_all add: heap_ok_def)

lemma acquire_shared_ok:
  assumes "heap_ok hp S W" and "block h = Some b" and "0 < refs b S"
  shows "\<exists>hp'. acquire_shared (Some b) hp = Returns () hp' \<and> heap_ok hp' (add_mset h S) W
           \<and> next_block hp' = next_block hp \<and> trace hp' = trace hp"
proof -
  from assms heap_ok_held [of hp S W b] obtain cb where cb: "blocks hp b = Some cb" by auto
  let ?hp' = "hp\<lparr>blocks := (blocks hp)(b \<mapsto> cb\<lparr>shared_refs := shared_refs cb + 1\<rparr>)\<rparr>"
  have "acquire_shared (Some b) hp = Returns () ?hp'"
    using cb by (simp add: acquire_shared_def write_block_def)
  moreover have "heap_ok ?hp' (add_mset h S) W"
    unfolding heap_ok_def
  proof
    fix b'
    show "block_inv (blocks ?hp' b') (b' < next_block ?hp') (refs b' (add_mset h S)) (refs b' W)
            (count_list (trace ?hp') (FreeBlock b')) (count_list (trace ?hp') (Release b'))"
      using heap_okD [OF assms(1), of b'] assms(2,3) cb
      by (cases "b' = b") auto
  qed
  ultimately show ?thesis by simp
qed


lemma refs_pos: "h \<in># M \<Longrightarrow> block h = Some b \<Longrightarrow> 0 < refs b M"
  by (auto simp: refs_def nonempty_has_size [symmetric])

lemma acquire_weak_ok:
  assumes "heap_ok hp S W" and "block h = Some b" and "0 < refs b S + refs b W"
  shows "\<exists>hp'. acquire_weak (Some b) hp = Returns () hp' \<and> heap_ok hp' S (add_mset h W)
           \<and> next_block hp' = next_block hp \<and> trace hp' = trace hp"
proof -
  from assms heap_ok_held [of hp S W b] obtain cb where cb: "blocks hp b = Some cb" by auto
  let ?hp' = "hp\<lparr>blocks := (blocks hp)(b \<mapsto> cb\<lparr>weak_refs := weak_refs cb + 1\<rparr>)\<rparr>"
  have "acquire_weak (Some b) hp = Returns () ?hp'"
    using cb by (simp add: acquire_weak_def write_block_def)
  moreover have "heap_ok ?hp' S (add_mset h W)"
    unfolding heap_ok_def
  proof
    fix b'
    show "block_inv (blocks ?hp' b') (b' < next_block ?hp') (refs b' S) (refs b' (add_mset h W))
            (count_list (trace ?hp') (FreeBlock b')) (count_list (trace ?hp') (Release b'))"
      using heap_okD [OF assms(1), of b'] assms(2,3) cb
      by (cases "b' = b") auto
  qed
  ultimately show ?thesis by simp
qed

lemma fresh_block:
  assumes "heap_ok hp S W"
  shows "blocks hp (next_block hp) = None"
    and "count_list (trace hp) (FreeBlock (next_block hp)) = 0"
    and "count_list (trace hp) (Release (next_block hp)) = 0"
    and "refs (next_block hp) S = 0" and "refs (next_block hp) W = 0"
  using heap_okD [OF assms, of "next_block hp"]
  by (cases "blocks hp (next_block hp)"; simp)+

lemma new_shared_block_ok:
  assumes "heap_ok hp S W" and "block h = Some (next_block hp)"
    and "blocks hp' = (blocks hp)(next_block hp \<mapsto> cb)"
    and "shared_refs cb = 1" and "weak_refs cb = 0"
    and "next_block hp' = Suc (next_block hp)" and "trace hp' = trace hp"
  shows "heap_ok hp' (add_mset h S) W"
  unfolding heap_ok_def
proof
  fix b'
  show "block_inv (blocks hp' b') (b' < next_block hp') (refs b' (add_mset h S)) (refs b' W)
            (count_list (trace hp') (FreeBlock b')) (count_list (trace hp') (Release b'))"
  proof (cases "b' = next_block hp")
    case True
    then show ?thesis
      using fresh_block [OF assms(1)] assms(2-) by simp
  next
    case False
    then show ?thesis
      using heap_okD [OF assms(1), of b'] assms(2-)
      by (cases "blocks hp b'") (auto simp: less_Suc_eq)
  qed
qed

lemma SharedPtr_from_ptr_ok:
  assumes "heap_ok hp S W"
  shows "\<exists>hp'. SharedPtr_from_ptr True p hp = Returns \<lparr>ptr = p, block = Some (next_block hp)\<rparr> hp'
           \<and> heap_ok hp' (add_mset \<lparr>ptr = p, block = Some (next_block hp)\<rparr> S) W
           \<and> next_block hp' = Suc (next_block hp) \<and> trace hp' = trace hp"
proof -
  let ?cb = "\<lparr>shared_refs = 1, weak_refs = 0, variant = ControlBlockPtr p\<rparr>"
  let ?hp' = "hp\<lparr>next_block := Suc (next_block hp), blocks := (blocks hp)(next_block hp \<mapsto> ?cb)\<rparr>"
  have r: "SharedPtr_from_ptr True p hp = Returns \<lparr>ptr = p, block = Some (next_block hp)\<rparr> ?hp'"
    by (simp add: SharedPtr_from_ptr_def new_block_def write_block_def)
  have "heap_ok ?hp' (add_mset \<lparr>ptr = p, block = Some (next_block hp)\<rparr> S) W"
    by (rule new_shared_block_ok [OF assms, where cb = ?cb]) simp_all
  with r show ?thesis by simp
qed

lemma MakeShared_ok:
  assumes "heap_ok hp S W"
  shows "\<exists>hp'. MakeShared True True hp = Returns \<lparr>ptr = Some (Storage (next_block hp)), block = Some (next_block hp)\<rparr> hp'
           \<and> heap_ok hp' (add_mset \<lparr>ptr = Some (Storage (next_block hp)), block = Some (next_block hp)\<rparr> S) W
           \<and> next_block hp' = Suc (next_block hp) \<and> trace hp' = trace hp"
proof -
  let ?h = "\<lparr>ptr = Some (Storage (next_block hp)), block = Some (next_block hp)\<rparr>"
  let ?cb = "\<lparr>shared_refs = 1, weak_refs = 0, variant = ControlBlockHolder\<rparr>"
  let ?hp' = "hp\<lparr>next_block := Suc (next_block hp), blocks := (blocks hp)(next_block hp \<mapsto> ?cb)\<rparr>"
  have r: "MakeShared True True hp = Returns ?h ?hp'"
    by (simp add: MakeShared_def new_holder_def SharedPtr_from_block_def acquire_shared_def new_block_def write_block_def)
  have "heap_ok ?hp' (add_mset ?h S) W"
    by (rule new_shared_block_ok [OF assms, where cb = ?cb]) simp_all
  with r show ?thesis by simp
qed


lemma IfNoShared_trivial:
  "blocks hp b = Some cb \<Longrightarrow>
   IfNoShared trivial_dtor b hp =
     Returns () (hp\<lparr>trace := trace hp @ Release b # object_events b (variant cb),
                    blocks := (blocks hp)(b \<mapsto> cb\<lparr>variant := released (variant cb)\<rparr>)\<rparr>)"
  by (cases "variant cb")
     (auto simp: heap_defs object_events_def released_def map_upd_triv split: option.splits)

lemma count_object_events [simp]:
  "count_list (object_events b v) (Release b') = 0"
  "count_list (object_events b v) (FreeBlock b') = 0"
  by (auto simp: object_events_def split: variant.splits option.splits)

lemma SharedPtr_dtor_result:
  assumes "block h = Some b" and "blocks hp b = Some cb"
  shows "SharedPtr_dtor trivial_dtor h hp =
     Returns ()
       (if shared_refs cb = 1
        then (if weak_refs cb = 0
              then hp\<lparr>trace := trace hp @ Release b # object_events b (variant cb) @ [FreeBlock b],
                      blocks := (blocks hp)(b := None)\<rparr>
              else hp\<lparr>trace := trace hp @ Release b # object_events b (variant cb),
                      blocks := (blocks hp)(b \<mapsto> cb\<lparr>shared_refs := 0, variant := released (variant cb)\<rparr>)\<rparr>)
        else (if shared_refs cb - 1 + weak_refs cb = 0
              then hp\<lparr>blocks := (blocks hp)(b := None), trace := trace hp @ [FreeBlock b]\<rparr>
              else hp\<lparr>blocks := (blocks hp)(b \<mapsto> cb\<lparr>shared_refs := shared_refs cb - 1\<rparr>)\<rparr>))"
  using assms
  by (simp add: SharedPtr_dtor_def write_block_def read_block_def delete_block_def IfNoShared_trivial)

lemma WeakPtr_dtor_result:
  assumes "block h = Some b" and "blocks hp b = Some cb"
  shows "WeakPtr_dtor h hp =
     Returns ()
       (if shared_refs cb + (weak_refs cb - 1) = 0
        then hp\<lparr>blocks := (blocks hp)(b := None), trace := trace hp @ [FreeBlock b]\<rparr>
        else hp\<lparr>blocks := (blocks hp)(b \<mapsto> cb\<lparr>weak_refs := weak_refs cb - 1\<rparr>)\<rparr>)"
  using assms
  by (simp add: WeakPtr_dtor_def write_block_def read_block_def delete_block_def)

lemma SharedPtr_dtor_ok:
  assumes "heap_ok hp (add_mset h S) W"
  shows "\<exists>hp' evs. SharedPtr_dtor trivial_dtor h hp = Returns () hp' \<and> heap_ok hp' S W
           \<and> next_block hp' = next_block hp \<and> trace hp' = trace hp @ evs"
proof (cases "block h")
  case None
  with assms show ?thesis by (simp add: SharedPtr_dtor_def)
next
  case (Some b)
  then have "0 < refs b (add_mset h S) + refs b W" by simp
  from heap_ok_held [OF assms this] obtain cb where cb: "blocks hp b = Some cb" by auto
  note at_b = heap_okD [OF assms, of b]
  define hp' where "hp' =
       (if shared_refs cb = 1
        then (if weak_refs cb = 0
              then hp\<lparr>trace := trace hp @ Release b # object_events b (variant cb) @ [FreeBlock b],
                      blocks := (blocks hp)(b := None)\<rparr>
              else hp\<lparr>trace := trace hp @ Release b # object_events b (variant cb),
                      blocks := (blocks hp)(b \<mapsto> cb\<lparr>shared_refs := 0, variant := released (variant cb)\<rparr>)\<rparr>)
        else (if shared_refs cb - 1 + weak_refs cb = 0
              then hp\<lparr>blocks := (blocks hp)(b := None), trace := trace hp @ [FreeBlock b]\<rparr>
              else hp\<lparr>blocks := (blocks hp)(b \<mapsto> cb\<lparr>shared_refs := shared_refs cb - 1\<rparr>)\<rparr>))"
  have r: "SharedPtr_dtor trivial_dtor h hp = Returns () hp'"
    unfolding hp'_def by (rule SharedPtr_dtor_result [OF Some cb])
  have n: "next_block hp' = next_block hp" by (simp add: hp'_def)
  have t: "\<exists>evs. trace hp' = trace hp @ evs" by (simp add: hp'_def)
  have "heap_ok hp' S W"
    unfolding heap_ok_def
  proof
    fix b'
    show "block_inv (blocks hp' b') (b' < next_block hp') (refs b' S) (refs b' W)
            (count_list (trace hp') (FreeBlock b')) (count_list (trace hp') (Release b'))"
    proof (cases "b' = b")
      case True
      then show ?thesis
        using at_b cb Some by (auto simp: hp'_def)
    next
      case False
      then show ?thesis
        using heap_okD [OF assms, of b'] Some by (auto simp: hp'_def)
    qed
  qed
  with r n t show ?thesis by blast
qed

lemma WeakPtr_dtor_ok:
  assumes "heap_ok hp S (add_mset h W)"
  shows "\<exists>hp' evs. WeakPtr_dtor h hp = Returns () hp' \<and> heap_ok hp' S W
           \<and> next_block hp' = next_block hp \<and> trace hp' = trace hp @ evs
           \<and> (\<forall>b. count_list evs (Release b) = 0)"
proof (cases "block h")
  case None
  with assms show ?thesis by (simp add: WeakPtr_dtor_def)
next
  case (Some b)
  then have "0 < refs b S + refs b (add_mset h W)" by simp
  from heap_ok_held [OF assms this] obtain cb where cb: "blocks hp b = Some cb" by auto
  note at_b = heap_okD [OF assms, of b]
  define hp' where "hp' =
       (if shared_refs cb + (weak_refs cb - 1) = 0
        then hp\<lparr>blocks := (blocks hp)(b := None), trace := trace hp @ [FreeBlock b]\<rparr>
        else hp\<lparr>blocks := (blocks hp)(b \<mapsto> cb\<lparr>weak_refs := weak_refs cb - 1\<rparr>)\<rparr>)"
  have r: "WeakPtr_dtor h hp = Returns () hp'"
    unfolding hp'_def by (rule WeakPtr_dtor_result [OF Some cb])
  have n: "next_block hp' = next_block hp" by (simp add: hp'_def)
  have t: "\<exists>evs. trace hp' = trace hp @ evs \<and> (\<forall>b. count_list evs (Release b) = 0)" by (simp add: hp'_def)
  have "heap_ok hp' S W"
    unfolding heap_ok_def
  proof
    fix b'
    show "block_inv (blocks hp' b') (b' < next_block hp') (refs b' S) (refs b' W)
            (count_list (trace hp') (FreeBlock b')) (count_list (trace hp') (Release b'))"
    proof (cases "b' = b")
      case True
      then show ?thesis
        using at_b cb Some by (auto simp: hp'_def)
    next
      case False
      then show ?thesis
        using heap_okD [OF assms, of b'] Some by (auto simp: hp'_def)
    qed
  qed
  with r n t show ?thesis by blast
qed


lemma SharedPtr_copy_ok:
  assumes "heap_ok hp S W" and "h \<in># S"
  shows "\<exists>hp'. SharedPtr_copy h hp = Returns h hp' \<and> heap_ok hp' (add_mset h S) W
           \<and> next_block hp' = next_block hp \<and> trace hp' = trace hp"
proof (cases "block h")
  case None
  with assms show ?thesis by (simp add: SharedPtr_copy_def acquire_shared_def)
next
  case (Some b)
  from acquire_shared_ok [OF assms(1) Some refs_pos [OF assms(2) Some]] Some
  show ?thesis by (auto simp: SharedPtr_copy_def)
qed

lemma SharedPtr_alias_ok:
  assumes "heap_ok hp S W" and "h \<in># S"
  shows "\<exists>hp'. SharedPtr_alias h p hp = Returns \<lparr>ptr = p, block = block h\<rparr> hp'
           \<and> heap_ok hp' (add_mset \<lparr>ptr = p, block = block h\<rparr> S) W
           \<and> next_block hp' = next_block hp \<and> trace hp' = trace hp"
proof (cases "block h")
  case None
  with assms show ?thesis by (simp add: SharedPtr_alias_def acquire_shared_def)
next
  case (Some b)
  from acquire_shared_ok [OF assms(1) _ refs_pos [OF assms(2) Some], of "\<lparr>ptr = p, block = Some b\<rparr>"] Some
  show ?thesis by (auto simp: SharedPtr_alias_def)
qed

lemma WeakPtr_copy_ok:
  assumes "heap_ok hp S W" and "h \<in># W"
  shows "\<exists>hp'. WeakPtr_copy h hp = Returns h hp' \<and> heap_ok hp' S (add_mset h W)
           \<and> next_block hp' = next_block hp \<and> trace hp' = trace hp"
proof (cases "block h")
  case None
  with assms show ?thesis by (simp add: WeakPtr_copy_def acquire_weak_def)
next
  case (Some b)
  from refs_pos [OF assms(2) Some] have "0 < refs b S + refs b W" by simp
  from acquire_weak_ok [OF assms(1) Some this] Some
  show ?thesis by (auto simp: WeakPtr_copy_def)
qed

lemma WeakPtr_from_shared_ok:
  assumes "heap_ok hp S W" and "h \<in># S"
  shows "\<exists>hp'. WeakPtr_from_shared h hp = Returns h hp' \<and> heap_ok hp' S (add_mset h W)
           \<and> next_block hp' = next_block hp \<and> trace hp' = trace hp"
proof (cases "block h")
  case None
  with assms show ?thesis by (simp add: WeakPtr_from_shared_def acquire_weak_def)
next
  case (Some b)
  from refs_pos [OF assms(2) Some] have "0 < refs b S + refs b W" by simp
  from acquire_weak_ok [OF assms(1) Some this] Some
  show ?thesis by (auto simp: WeakPtr_from_shared_def)
qed

lemma WeakPtr_Expired_ok:
  assumes "heap_ok hp S W" and "w \<in># W"
  shows "WeakPtr_Expired w hp = Returns (\<forall>b. block w = Some b \<longrightarrow> refs b S = 0) hp"
proof (cases "block w")
  case None
  then show ?thesis by (simp add: WeakPtr_Expired_def WeakPtr_UseCount_def)
next
  case (Some b)
  from refs_pos [OF assms(2) Some] have "0 < refs b S + refs b W" by simp
  from heap_ok_held [OF assms(1) this] obtain cb where cb: "blocks hp b = Some cb" by auto
  with heap_okD [OF assms(1), of b] have "shared_refs cb = int (refs b S)" by simp
  with Some cb show ?thesis
    by (simp add: WeakPtr_Expired_def WeakPtr_UseCount_def read_block_def)
qed

lemma SharedPtr_from_weak_ok:
  assumes "heap_ok hp S W" and "w \<in># W"
  shows "SharedPtr_from_weak w hp = Throws BadWeakPtr hp
         \<or> (\<exists>hp'. SharedPtr_from_weak w hp = Returns w hp' \<and> heap_ok hp' (add_mset w S) W
               \<and> next_block hp' = next_block hp \<and> trace hp' = trace hp)"
proof (cases "\<forall>b. block w = Some b \<longrightarrow> refs b S = 0")
  case True
  then show ?thesis
    using WeakPtr_Expired_ok [OF assms] by (simp add: SharedPtr_from_weak_def)
next
  case False
  then obtain b where b: "block w = Some b" "0 < refs b S" by auto
  from acquire_shared_ok [OF assms(1) b] b False
  show ?thesis
    using WeakPtr_Expired_ok [OF assms] by (auto simp: SharedPtr_from_weak_def)
qed

lemma WeakPtr_Lock_ok:
  assumes "heap_ok hp S W" and "w \<in># W"
  shows "\<exists>r hp'. WeakPtr_Lock w hp = Returns r hp' \<and> heap_ok hp' (add_mset r S) W
               \<and> next_block hp' = next_block hp \<and> trace hp' = trace hp"
proof (cases "\<forall>b. block w = Some b \<longrightarrow> refs b S = 0")
  case True
  then show ?thesis
    using WeakPtr_Expired_ok [OF assms] assms(1)
    by (simp add: WeakPtr_Lock_def SharedPtr_null_def)
next
  case False
  then obtain b where b: "block w = Some b" "0 < refs b S" by auto
  from acquire_shared_ok [OF assms(1) b] b False
  show ?thesis
    using WeakPtr_Expired_ok [OF assms]
    by (auto simp: WeakPtr_Lock_def SharedPtr_from_weak_def)
qed


lemma step_ok_simps [simp]:
  "step_ok st (Returns x st') \<longleftrightarrow>
     consistent st' \<and> next_block (mem st) \<le> next_block (mem st')
     \<and> (\<exists>evs. trace (mem st') = trace (mem st) @ evs)
     \<and> (\<forall>b. strong_count b st \<le> Suc (strong_count b st'))
     \<and> (\<forall>b. next_block (mem st) \<le> b \<and> b < next_block (mem st') \<longrightarrow> 0 < strong_count b st')"
  "step_ok st (Throws e st') \<longleftrightarrow> st' = st"
  "step_ok st (Undefined u) \<longleftrightarrow> u = DeadHandle"
  by (simp_all add: step_ok_def)

lemma lookup_live: "lookup xs i = Some h \<Longrightarrow> h \<in># live xs"
  by (simp add: live_lookup)

lemma lookup_length: "lookup xs i = Some h \<Longrightarrow> i < length xs"
  by (auto simp: lookup_def split: if_splits)

lemma declare_shared_ok:
  assumes "consistent st"
    and "m = Returns h hp'"
    and "heap_ok hp' (add_mset h (live (shared_vars st))) (live (weak_vars st))"
    and "next_block (mem st) \<le> next_block hp'"
    and "\<exists>evs. trace hp' = trace (mem st) @ evs"
    and "\<forall>b. next_block (mem st) \<le> b \<and> b < next_block hp' \<longrightarrow> block h = Some b"
  shows "step_ok st (declare_shared st m)"
  using assms
  by (auto simp: declare_shared_def in_mem_def consistent_def strong_count_def)

lemma declare_weak_ok:
  assumes "consistent st"
    and "m = Returns h hp'"
    and "heap_ok hp' (live (shared_vars st)) (add_mset h (live (weak_vars st)))"
    and "next_block hp' = next_block (mem st)"
    and "trace hp' = trace (mem st)"
  shows "step_ok st (declare_weak st m)"
  using assms
  by (auto simp: declare_weak_def in_mem_def consistent_def strong_count_def)

lemma state_mem_id [simp]: "st\<lparr>mem := mem st\<rparr> = st"
  by simp

lemma SharedPtr_swap_in_ok:
  assumes "heap_ok (mem st) (add_mset tmp (live (shared_vars st))) (live (weak_vars st))"
    and "lookup (shared_vars st) this = Some old"
  shows "\<exists>st' evs. SharedPtr_swap_in trivial_dtor this tmp st = Returns () st' \<and> consistent st'
           \<and> next_block (mem st') = next_block (mem st)
           \<and> trace (mem st') = trace (mem st) @ evs
           \<and> (\<forall>b. refs b (add_mset tmp (live (shared_vars st))) \<le> Suc (strong_count b st'))
           \<and> (\<forall>b. block tmp = Some b \<longrightarrow> 0 < strong_count b st')"
proof -
  let ?M = "live ((shared_vars st)[this := None])"
  have l: "live (shared_vars st) = add_mset old ?M"
    by (rule live_lookup [OF assms(2)])
  have l': "live ((shared_vars st)[this := Some tmp]) = add_mset tmp ?M"
    by (rule live_update_Some [OF lookup_length [OF assms(2)]])
  from assms(1) have "heap_ok (mem st) (add_mset old (add_mset tmp ?M)) (live (weak_vars st))"
    by (simp add: l add_mset_commute)
  from SharedPtr_dtor_ok [OF this] obtain hp' evs where
    d: "SharedPtr_dtor trivial_dtor old (mem st) = Returns () hp'"
      "heap_ok hp' (add_mset tmp ?M) (live (weak_vars st))"
      "next_block hp' = next_block (mem st)" "trace hp' = trace (mem st) @ evs"
    by blast
  then show ?thesis
    using assms(2) l l'
    by (auto simp: SharedPtr_swap_in_def in_mem_def consistent_def strong_count_def)
qed

lemma WeakPtr_swap_in_ok:
  assumes "heap_ok (mem st) (live (shared_vars st)) (add_mset tmp (live (weak_vars st)))"
    and "lookup (weak_vars st) this = Some old"
  shows "\<exists>st' evs. WeakPtr_swap_in this tmp st = Returns () st' \<and> consistent st'
           \<and> next_block (mem st') = next_block (mem st)
           \<and> trace (mem st') = trace (mem st) @ evs
           \<and> shared_vars st' = shared_vars st"
proof -
  let ?M = "live ((weak_vars st)[this := None])"
  have l: "live (weak_vars st) = add_mset old ?M"
    by (rule live_lookup [OF assms(2)])
  have l': "live ((weak_vars st)[this := Some tmp]) = add_mset tmp ?M"
    by (rule live_update_Some [OF lookup_length [OF assms(2)]])
  from assms(1) have "heap_ok (mem st) (live (shared_vars st)) (add_mset old (add_mset tmp ?M))"
    by (simp add: l add_mset_commute)
  from WeakPtr_dtor_ok [OF this] obtain hp' evs where
    d: "WeakPtr_dtor old (mem st) = Returns () hp'"
      "heap_ok hp' (live (shared_vars st)) (add_mset tmp ?M)"
      "next_block hp' = next_block (mem st)" "trace hp' = trace (mem st) @ evs"
    by blast
  then show ?thesis
    using assms(2) l l'
    by (auto simp: WeakPtr_swap_in_def in_mem_def consistent_def)
qed


lemma SharedPtr_from_ptr_fails [simp]: "SharedPtr_from_ptr False p hp = Throws BadAlloc hp"
  by (simp add: SharedPtr_from_ptr_def new_block_def)

lemma MakeShared_fails [simp]:
  "MakeShared False c hp = Throws BadAlloc hp"
  "MakeShared True False hp = Throws CtorException hp"
  by (simp_all add: MakeShared_def new_holder_def new_block_def)

lemma declare_throws [simp]:
  "declare_shared st (Throws e (mem st)) = Throws e st"
  "declare_weak st (Throws e (mem st)) = Throws e st"
  by (simp_all add: declare_shared_def declare_weak_def in_mem_def)

lemma step_new_shared_ok:
  assumes "consistent st"
  shows "step_ok st (step trivial_dtor New_SharedPtr st)"
    and "step_ok st (step trivial_dtor (New_SharedPtr_from_ptr a p) st)"
    and "step_ok st (step trivial_dtor (New_MakeShared a c) st)"
proof -
  from assms have ok: "heap_ok (mem st) (live (shared_vars st)) (live (weak_vars st))"
    by (simp add: consistent_def)
  show "step_ok st (step trivial_dtor New_SharedPtr st)"
    using assms ok
    by (auto intro!: declare_shared_ok [where h = SharedPtr_null and hp' = "mem st"]
        simp: SharedPtr_null_def)
  show "step_ok st (step trivial_dtor (New_SharedPtr_from_ptr a p) st)"
  proof (cases a)
    case True
    from SharedPtr_from_ptr_ok [OF ok, of p] obtain hp' where
      "SharedPtr_from_ptr True p (mem st) = Returns \<lparr>ptr = p, block = Some (next_block (mem st))\<rparr> hp'"
      "heap_ok hp' (add_mset \<lparr>ptr = p, block = Some (next_block (mem st))\<rparr> (live (shared_vars st))) (live (weak_vars st))"
      "next_block hp' = Suc (next_block (mem st))" "trace hp' = trace (mem st)"
      by blast
    with True assms show ?thesis
      by (auto intro!: declare_shared_ok)
  next
    case False
    then show ?thesis by simp
  qed
  show "step_ok st (step trivial_dtor (New_MakeShared a c) st)"
  proof (cases "a \<and> c")
    case True
    from MakeShared_ok [OF ok] obtain hp' where
      "MakeShared True True (mem st) = Returns \<lparr>ptr = Some (Storage (next_block (mem st))), block = Some (next_block (mem st))\<rparr> hp'"
      "heap_ok hp' (add_mset \<lparr>ptr = Some (Storage (next_block (mem st))), block = Some (next_block (mem st))\<rparr> (live (shared_vars st))) (live (weak_vars st))"
      "next_block hp' = Suc (next_block (mem st))" "trace hp' = trace (mem st)"
      by blast
    with True assms show ?thesis
      by (auto intro!: declare_shared_ok)
  next
    case False
    then show ?thesis by (cases a) simp_all
  qed
qed

lemma with_shared_cases:
  assumes "\<And>h. lookup (shared_vars st) i = Some h \<Longrightarrow> step_ok st (f h)"
  shows "step_ok st (with_shared st i f)"
  using assms by (cases "lookup (shared_vars st) i") (simp_all add: with_shared_def)

lemma with_weak_cases:
  assumes "\<And>h. lookup (weak_vars st) i = Some h \<Longrightarrow> step_ok st (f h)"
  shows "step_ok st (with_weak st i f)"
  using assms by (cases "lookup (weak_vars st) i") (simp_all add: with_weak_def)

lemma step_copy_shared_ok:
  assumes "consistent st"
  shows "step_ok st (step trivial_dtor (New_SharedPtr_copy i) st)"
    and "step_ok st (step trivial_dtor (New_SharedPtr_alias i p) st)"
    and "step_ok st (step trivial_dtor (New_WeakPtr_from_shared i) st)"
proof -
  from assms have ok: "heap_ok (mem st) (live (shared_vars st)) (live (weak_vars st))"
    by (simp add: consistent_def)
  show "step_ok st (step trivial_dtor (New_SharedPtr_copy i) st)"
    unfolding step.simps
  proof (rule with_shared_cases)
    fix h assume "lookup (shared_vars st) i = Some h"
    from SharedPtr_copy_ok [OF ok lookup_live [OF this]] assms
    show "step_ok st (declare_shared st (SharedPtr_copy h (mem st)))"
      by (auto intro!: declare_shared_ok)
  qed
  show "step_ok st (step trivial_dtor (New_SharedPtr_alias i p) st)"
    unfolding step.simps
  proof (rule with_shared_cases)
    fix h assume "lookup (shared_vars st) i = Some h"
    from SharedPtr_alias_ok [OF ok lookup_live [OF this], of p] assms
    show "step_ok st (declare_shared st (SharedPtr_alias h p (mem st)))"
      by (auto intro!: declare_shared_ok)
  qed
  show "step_ok st (step trivial_dtor (New_WeakPtr_from_shared i) st)"
    unfolding step.simps
  proof (rule with_shared_cases)
    fix h assume "lookup (shared_vars st) i = Some h"
    from WeakPtr_from_shared_ok [OF ok lookup_live [OF this]] assms
    show "step_ok st (declare_weak st (WeakPtr_from_shared h (mem st)))"
      by (auto intro!: declare_weak_ok)
  qed
qed

lemma step_from_weak_ok:
  assumes "consistent st"
  shows "step_ok st (step trivial_dtor (New_SharedPtr_from_weak j) st)"
    and "step_ok st (step trivial_dtor (New_SharedPtr_Lock j) st)"
    and "step_ok st (step trivial_dtor (New_WeakPtr_copy j) st)"
proof -
  from assms have ok: "heap_ok (mem st) (live (shared_vars st)) (live (weak_vars st))"
    by (simp add: consistent_def)
  show "step_ok st (step trivial_dtor (New_SharedPtr_from_weak j) st)"
    unfolding step.simps
  proof (rule with_weak_cases)
    fix w assume "lookup (weak_vars st) j = Some w"
    from SharedPtr_from_weak_ok [OF ok lookup_live [OF this]]
    show "step_ok st (declare_shared st (SharedPtr_from_weak w (mem st)))"
    proof
      assume "SharedPtr_from_weak w (mem st) = Throws BadWeakPtr (mem st)"
      then show ?thesis by simp
    next
      assume "\<exists>hp'. SharedPtr_from_weak w (mem st) = Returns w hp'
          \<and> heap_ok hp' (add_mset w (live (shared_vars st))) (live (weak_vars st))
          \<and> next_block hp' = next_block (mem st) \<and> trace hp' = trace (mem st)"
      with assms show ?thesis
        by (auto intro!: declare_shared_ok)
    qed
  qed
  show "step_ok st (step trivial_dtor (New_SharedPtr_Lock j) st)"
    unfolding step.simps
  proof (rule with_weak_cases)
    fix w assume "lookup (weak_vars st) j = Some w"
    from WeakPtr_Lock_ok [OF ok lookup_live [OF this]] assms
    show "step_ok st (declare_shared st (WeakPtr_Lock w (mem st)))"
      by (auto intro!: declare_shared_ok)
  qed
  show "step_ok st (step trivial_dtor (New_WeakPtr_copy j) st)"
    unfolding step.simps
  proof (rule with_weak_cases)
    fix w assume "lookup (weak_vars st) j = Some w"
    from WeakPtr_copy_ok [OF ok lookup_live [OF this]] assms
    show "step_ok st (declare_weak st (WeakPtr_copy w (mem st)))"
      by (auto intro!: declare_weak_ok)
  qed
qed


lemma live_swap:
  assumes "lookup xs i = Some a" and "lookup xs j = Some b"
  shows "live (xs[i := Some b, j := Some a]) = live xs"
proof -
  from assms have len: "i < length xs" "j < length xs" and v: "xs ! i = Some a" "xs ! j = Some b"
    by (auto simp: lookup_def split: if_splits)
  have "mset (xs[i := xs ! j, j := xs ! i]) = mset xs"
    by (rule mset_swap [OF len(2) len(1)])
  with v show ?thesis by (simp add: live_def)
qed

lemma step_shared_store_ok:
  assumes "consistent st"
  shows "step_ok st (step trivial_dtor (New_SharedPtr_move i) st)"
    and "step_ok st (step trivial_dtor (Swap_SharedPtr i j) st)"
    and "step_ok st (step trivial_dtor (Destroy_SharedPtr i) st)"
proof -
  from assms have ok: "heap_ok (mem st) (live (shared_vars st)) (live (weak_vars st))"
    by (simp add: consistent_def)
  show "step_ok st (step trivial_dtor (New_SharedPtr_move i) st)"
    unfolding step.simps
  proof (rule with_shared_cases)
    fix h assume h: "lookup (shared_vars st) i = Some h"
    have "live ((shared_vars st)[i := Some \<lparr>ptr = None, block = None\<rparr>])
        = add_mset \<lparr>ptr = None, block = None\<rparr> (live ((shared_vars st)[i := None]))"
      by (rule live_update_Some [OF lookup_length [OF h]])
    with ok live_lookup [OF h]
    show "step_ok st (case SharedPtr_move h of (new, moved_from) \<Rightarrow>
        Returns () (st\<lparr>shared_vars := (shared_vars st)[i := Some moved_from] @ [Some new]\<rparr>))"
      by (simp add: SharedPtr_move_def consistent_def strong_count_def)
  qed
  show "step_ok st (step trivial_dtor (Swap_SharedPtr i j) st)"
  proof (cases "lookup (shared_vars st) i")
    case None
    then show ?thesis by (simp add: SharedPtr_Swap_def)
  next
    case a: (Some a)
    show ?thesis
    proof (cases "lookup (shared_vars st) j")
      case None
      with a show ?thesis by (simp add: SharedPtr_Swap_def)
    next
      case (Some b)
      with a ok live_swap [OF a Some] show ?thesis
        by (simp add: SharedPtr_Swap_def consistent_def strong_count_def)
    qed
  qed
  show "step_ok st (step trivial_dtor (Destroy_SharedPtr i) st)"
    unfolding step.simps
  proof (rule with_shared_cases)
    fix h assume h: "lookup (shared_vars st) i = Some h"
    from ok have "heap_ok (mem st) (add_mset h (live ((shared_vars st)[i := None]))) (live (weak_vars st))"
      by (simp add: live_lookup [OF h])
    from SharedPtr_dtor_ok [OF this] obtain hp' evs where
      "SharedPtr_dtor trivial_dtor h (mem st) = Returns () hp'"
      "heap_ok hp' (live ((shared_vars st)[i := None])) (live (weak_vars st))"
      "next_block hp' = next_block (mem st)" "trace hp' = trace (mem st) @ evs"
      by blast
    then show "step_ok st (in_mem (st\<lparr>shared_vars := (shared_vars st)[i := None]\<rparr>)
        (SharedPtr_dtor trivial_dtor h (mem st)))"
      using live_lookup [OF h]
      by (simp add: in_mem_def consistent_def strong_count_def)
  qed
qed

lemma step_weak_store_ok:
  assumes "consistent st"
  shows "step_ok st (step trivial_dtor New_WeakPtr st)"
    and "step_ok st (step trivial_dtor (New_WeakPtr_move i) st)"
    and "step_ok st (step trivial_dtor (Swap_WeakPtr i j) st)"
    and "step_ok st (step trivial_dtor (Destroy_WeakPtr i) st)"
proof -
  from assms have ok: "heap_ok (mem st) (live (shared_vars st)) (live (weak_vars st))"
    by (simp add: consistent_def)
  show "step_ok st (step trivial_dtor New_WeakPtr st)"
    using assms ok
    by (auto intro!: declare_weak_ok [where h = WeakPtr_null and hp' = "mem st"]
        simp: WeakPtr_null_def)
  show "step_ok st (step trivial_dtor (New_WeakPtr_move i) st)"
    unfolding step.simps
  proof (rule with_weak_cases)
    fix h assume h: "lookup (weak_vars st) i = Some h"
    have "live ((weak_vars st)[i := Some \<lparr>ptr = None, block = None\<rparr>])
        = add_mset \<lparr>ptr = None, block = None\<rparr> (live ((weak_vars st)[i := None]))"
      by (rule live_update_Some [OF lookup_length [OF h]])
    with ok live_lookup [OF h]
    show "step_ok st (case WeakPtr_move h of (new, moved_from) \<Rightarrow>
        Returns () (st\<lparr>weak_vars := (weak_vars st)[i := Some moved_from] @ [Some new]\<rparr>))"
      by (simp add: WeakPtr_move_def consistent_def strong_count_def)
  qed
  show "step_ok st (step trivial_dtor (Swap_WeakPtr i j) st)"
  proof (cases "lookup (weak_vars st) i")
    case None
    then show ?thesis by (simp add: WeakPtr_Swap_def)
  next
    case a: (Some a)
    show ?thesis
    proof (cases "lookup (weak_vars st) j")
      case None
      with a show ?thesis by (simp add: WeakPtr_Swap_def)
    next
      case (Some b)
      with a ok live_swap [OF a Some] show ?thesis
        by (simp add: WeakPtr_Swap_def consistent_def strong_count_def)
    qed
  qed
  show "step_ok st (step trivial_dtor (Destroy_WeakPtr i) st)"
    unfolding step.simps
  proof (rule with_weak_cases)
    fix h assume h: "lookup (weak_vars st) i = Some h"
    from ok have "heap_ok (mem st) (live (shared_vars st)) (add_mset h (live ((weak_vars st)[i := None])))"
      by (simp add: live_lookup [OF h])
    from WeakPtr_dtor_ok [OF this] obtain hp' evs where
      "WeakPtr_dtor h (mem st) = Returns () hp'"
      "heap_ok hp' (live (shared_vars st)) (live ((weak_vars st)[i := None]))"
      "next_block hp' = next_block (mem st)" "trace hp' = trace (mem st) @ evs"
      by blast
    then show "step_ok st (in_mem (st\<lparr>weak_vars := (weak_vars st)[i := None]\<rparr>)
        (WeakPtr_dtor h (mem st)))"
      by (simp add: in_mem_def consistent_def strong_count_def)
  qed
qed


lemma swap_in_dead [simp]:
  "lookup (shared_vars st) this = None \<Longrightarrow> SharedPtr_swap_in D this tmp st = Undefined DeadHandle"
  "lookup (weak_vars st) this = None \<Longrightarrow> WeakPtr_swap_in this tmp st = Undefined DeadHandle"
  by (simp_all add: SharedPtr_swap_in_def WeakPtr_swap_in_def)

lemma lookup_update:
  "lookup (xs[j := v]) i = (if i = j \<and> j < length xs then v else lookup xs i)"
  by (simp add: lookup_def)

lemma step_assign_shared_ok:
  assumes "consistent st"
  shows "step_ok st (step trivial_dtor (Assign_SharedPtr i j) st)"
proof (cases "lookup (shared_vars st) j")
  case None
  then show ?thesis by (simp add: SharedPtr_assign_def)
next
  case (Some h)
  from assms have ok: "heap_ok (mem st) (live (shared_vars st)) (live (weak_vars st))"
    by (simp add: consistent_def)
  from SharedPtr_copy_ok [OF ok lookup_live [OF Some]] obtain hp1 where
    c: "SharedPtr_copy h (mem st) = Returns h hp1"
      "heap_ok hp1 (add_mset h (live (shared_vars st))) (live (weak_vars st))"
      "next_block hp1 = next_block (mem st)" "trace hp1 = trace (mem st)"
    by blast
  let ?st1 = "st\<lparr>mem := hp1\<rparr>"
  have r: "step trivial_dtor (Assign_SharedPtr i j) st = SharedPtr_swap_in trivial_dtor i h ?st1"
    using Some c(1) by (simp add: SharedPtr_assign_def in_mem_def)
  show ?thesis
  proof (cases "lookup (shared_vars st) i")
    case None
    then show ?thesis unfolding r by simp
  next
    case old: (Some old)
    from c(2) have "heap_ok (mem ?st1) (add_mset h (live (shared_vars ?st1))) (live (weak_vars ?st1))"
      by simp
    from SharedPtr_swap_in_ok [OF this, of i old] old obtain st' evs where
      "SharedPtr_swap_in trivial_dtor i h ?st1 = Returns () st'" "consistent st'"
      "next_block (mem st') = next_block (mem ?st1)" "trace (mem st') = trace (mem ?st1) @ evs"
      "\<forall>b. refs b (add_mset h (live (shared_vars ?st1))) \<le> Suc (strong_count b st')"
      by auto
    then show ?thesis
      unfolding r using c(3,4)
      by (auto simp: strong_count_def intro: order_trans [rotated])
  qed
qed


lemma step_move_assign_shared_ok:
  assumes "consistent st"
  shows "step_ok st (step trivial_dtor (MoveAssign_SharedPtr i j) st)"
proof (cases "lookup (shared_vars st) j")
  case None
  then show ?thesis by (simp add: SharedPtr_move_assign_def)
next
  case (Some h)
  from assms have ok: "heap_ok (mem st) (live (shared_vars st)) (live (weak_vars st))"
    by (simp add: consistent_def)
  let ?e = "\<lparr>ptr = None, block = None\<rparr>"
  let ?st1 = "st\<lparr>shared_vars := (shared_vars st)[j := Some ?e]\<rparr>"
  have r: "step trivial_dtor (MoveAssign_SharedPtr i j) st = SharedPtr_swap_in trivial_dtor i h ?st1"
    using Some by (simp add: SharedPtr_move_assign_def SharedPtr_move_def)
  have l: "live (shared_vars st) = add_mset h (live ((shared_vars st)[j := None]))"
    by (rule live_lookup [OF Some])
  have l1: "live (shared_vars ?st1) = add_mset ?e (live ((shared_vars st)[j := None]))"
    using live_update_Some [OF lookup_length [OF Some], of ?e] by simp
  have pre: "heap_ok (mem ?st1) (add_mset h (live (shared_vars ?st1))) (live (weak_vars ?st1))"
    using ok l l1 by simp
  have cnt: "refs b (live (shared_vars st)) = refs b (add_mset h (live (shared_vars ?st1)))" for b
    using l l1 by simp
  show ?thesis
  proof (cases "lookup (shared_vars ?st1) i")
    case None
    then show ?thesis unfolding r by simp
  next
    case old: (Some old)
    from SharedPtr_swap_in_ok [OF pre old] obtain st' evs where
      "SharedPtr_swap_in trivial_dtor i h ?st1 = Returns () st'" "consistent st'"
      "next_block (mem st') = next_block (mem ?st1)" "trace (mem st') = trace (mem ?st1) @ evs"
      "\<forall>b. refs b (add_mset h (live (shared_vars ?st1))) \<le> Suc (strong_count b st')"
      by auto
    then show ?thesis
      unfolding r using cnt
      by (auto simp: strong_count_def)
  qed
qed

lemma step_reset_shared_ok:
  assumes "consistent st"
  shows "step_ok st (step trivial_dtor (Reset_SharedPtr i) st)"
proof (cases "lookup (shared_vars st) i")
  case None
  then show ?thesis by (simp add: SharedPtr_Reset_def)
next
  case old: (Some old)
  from assms have "heap_ok (mem st) (add_mset SharedPtr_null (live (shared_vars st))) (live (weak_vars st))"
    by (simp add: consistent_def SharedPtr_null_def)
  from SharedPtr_swap_in_ok [OF this old] obtain st' evs where
    "SharedPtr_swap_in trivial_dtor i SharedPtr_null st = Returns () st'" "consistent st'"
    "next_block (mem st') = next_block (mem st)" "trace (mem st') = trace (mem st) @ evs"
    "\<forall>b. refs b (add_mset SharedPtr_null (live (shared_vars st))) \<le> Suc (strong_count b st')"
    by auto
  then show ?thesis
    by (auto simp: SharedPtr_Reset_def strong_count_def SharedPtr_null_def)
qed

lemma step_reset_ptr_shared_ok:
  assumes "consistent st"
  shows "step_ok st (step trivial_dtor (Reset_SharedPtr_ptr a i p) st)"
proof (cases a)
  case False
  then show ?thesis by (simp add: SharedPtr_Reset_ptr_def in_mem_def)
next
  case True
  from assms have ok: "heap_ok (mem st) (live (shared_vars st)) (live (weak_vars st))"
    by (simp add: consistent_def)
  let ?h = "\<lparr>ptr = p, block = Some (next_block (mem st))\<rparr>"
  from SharedPtr_from_ptr_ok [OF ok, of p] obtain hp1 where
    c: "SharedPtr_from_ptr True p (mem st) = Returns ?h hp1"
      "heap_ok hp1 (add_mset ?h (live (shared_vars st))) (live (weak_vars st))"
      "next_block hp1 = Suc (next_block (mem st))" "trace hp1 = trace (mem st)"
    by blast
  let ?st1 = "st\<lparr>mem := hp1\<rparr>"
  have r: "step trivial_dtor (Reset_SharedPtr_ptr a i p) st = SharedPtr_swap_in trivial_dtor i ?h ?st1"
    using True c(1) by (simp add: SharedPtr_Reset_ptr_def in_mem_def)
  show ?thesis
  proof (cases "lookup (shared_vars st) i")
    case None
    then show ?thesis unfolding r by simp
  next
    case old: (Some old)
    from c(2) have "heap_ok (mem ?st1) (add_mset ?h (live (shared_vars ?st1))) (live (weak_vars ?st1))"
      by simp
    from SharedPtr_swap_in_ok [OF this, of i old] old obtain st' evs where
      "SharedPtr_swap_in trivial_dtor i ?h ?st1 = Returns () st'" "consistent st'"
      "next_block (mem st') = next_block (mem ?st1)" "trace (mem st') = trace (mem ?st1) @ evs"
      "\<forall>b. refs b (add_mset ?h (live (shared_vars ?st1))) \<le> Suc (strong_count b st')"
      "\<forall>b. block ?h = Some b \<longrightarrow> 0 < strong_count b st'"
      by auto
    then show ?thesis
      unfolding r using c(3,4)
      by (auto simp: strong_count_def less_Suc_eq_le intro: order_trans [rotated])
  qed
qed

lemma step_assign_weak_ok:
  assumes "consistent st"
  shows "step_ok st (step trivial_dtor (Assign_WeakPtr i j) st)"
    and "step_ok st (step trivial_dtor (Assign_WeakPtr_shared i k) st)"
    and "step_ok st (step trivial_dtor (Reset_WeakPtr i) st)"
proof -
  from assms have ok: "heap_ok (mem st) (live (shared_vars st)) (live (weak_vars st))"
    by (simp add: consistent_def)
  have fin: "step_ok st (WeakPtr_swap_in i h (st\<lparr>mem := hp1\<rparr>))"
    if "heap_ok hp1 (live (shared_vars st)) (add_mset h (live (weak_vars st)))"
      and "next_block hp1 = next_block (mem st)" and "trace hp1 = trace (mem st)" for h hp1
  proof (cases "lookup (weak_vars st) i")
    case None
    then show ?thesis by simp
  next
    case old: (Some old)
    let ?st1 = "st\<lparr>mem := hp1\<rparr>"
    from that(1) have "heap_ok (mem ?st1) (live (shared_vars ?st1)) (add_mset h (live (weak_vars ?st1)))"
      by simp
    from WeakPtr_swap_in_ok [OF this, of i old] old obtain st' evs where
      "WeakPtr_swap_in i h ?st1 = Returns () st'" "consistent st'"
      "next_block (mem st') = next_block (mem ?st1)" "trace (mem st') = trace (mem ?st1) @ evs"
      "shared_vars st' = shared_vars ?st1"
      by auto
    then show ?thesis
      using that(2,3) by (auto simp: strong_count_def)
  qed
  show "step_ok st (step trivial_dtor (Assign_WeakPtr i j) st)"
  proof (cases "lookup (weak_vars st) j")
    case None
    then show ?thesis by (simp add: WeakPtr_assign_def)
  next
    case (Some h)
    from WeakPtr_copy_ok [OF ok lookup_live [OF Some]] obtain hp1 where
      c: "WeakPtr_copy h (mem st) = Returns h hp1"
        "heap_ok hp1 (live (shared_vars st)) (add_mset h (live (weak_vars st)))"
        "next_block hp1 = next_block (mem st)" "trace hp1 = trace (mem st)"
      by blast
    from fin [OF c(2,3,4)] show ?thesis
      using Some c(1) by (simp add: WeakPtr_assign_def in_mem_def)
  qed
  show "step_ok st (step trivial_dtor (Assign_WeakPtr_shared i k) st)"
  proof (cases "lookup (shared_vars st) k")
    case None
    then show ?thesis by (simp add: WeakPtr_assign_shared_def)
  next
    case (Some h)
    from WeakPtr_from_shared_ok [OF ok lookup_live [OF Some]] obtain hp1 where
      c: "WeakPtr_from_shared h (mem st) = Returns h hp1"
        "heap_ok hp1 (live (shared_vars st)) (add_mset h (live (weak_vars st)))"
        "next_block hp1 = next_block (mem st)" "trace hp1 = trace (mem st)"
      by blast
    from fin [OF c(2,3,4)] show ?thesis
      using Some c(1) by (simp add: WeakPtr_assign_shared_def in_mem_def)
  qed
  show "step_ok st (step trivial_dtor (Reset_WeakPtr i) st)"
    using fin [of "mem st" WeakPtr_null] ok
    by (simp add: WeakPtr_Reset_def WeakPtr_null_def)
qed

lemma step_move_assign_weak_ok:
  assumes "consistent st"
  shows "step_ok st (step trivial_dtor (MoveAssign_WeakPtr i j) st)"
proof (cases "lookup (weak_vars st) j")
  case None
  then show ?thesis by (simp add: WeakPtr_move_assign_def)
next
  case (Some h)
  from assms have ok: "heap_ok (mem st) (live (shared_vars st)) (live (weak_vars st))"
    by (simp add: consistent_def)
  let ?e = "\<lparr>ptr = None, block = None\<rparr>"
  let ?st1 = "st\<lparr>weak_vars := (weak_vars st)[j := Some ?e]\<rparr>"
  have r: "step trivial_dtor (MoveAssign_WeakPtr i j) st = WeakPtr_swap_in i h ?st1"
    using Some by (simp add: WeakPtr_move_assign_def WeakPtr_move_def)
  have l: "live (weak_vars st) = add_mset h (live ((weak_vars st)[j := None]))"
    by (rule live_lookup [OF Some])
  have l1: "live (weak_vars ?st1) = add_mset ?e (live ((weak_vars st)[j := None]))"
    using live_update_Some [OF lookup_length [OF Some], of ?e] by simp
  have pre: "heap_ok (mem ?st1) (live (shared_vars ?st1)) (add_mset h (live (weak_vars ?st1)))"
    using ok l l1 by simp
  show ?thesis
  proof (cases "lookup (weak_vars ?st1) i")
    case None
    then show ?thesis unfolding r by simp
  next
    case old: (Some old)
    from WeakPtr_swap_in_ok [OF pre old] obtain st' evs where
      "WeakPtr_swap_in i h ?st1 = Returns () st'" "consistent st'"
      "next_block (mem st') = next_block (mem ?st1)" "trace (mem st') = trace (mem ?st1) @ evs"
      "shared_vars st' = shared_vars ?st1"
      by auto
    then show ?thesis
      unfolding r by (auto simp: strong_count_def)
  qed
qed

lemma step_consistent:
  assumes "consistent st"
  shows "step_ok st (step trivial_dtor x st)"
  using assms
  by (cases x)
    (simp_all only: step_new_shared_ok step_copy_shared_ok step_from_weak_ok
      step_shared_store_ok step_weak_store_ok step_assign_shared_ok step_move_assign_shared_ok
      step_reset_shared_ok step_reset_ptr_shared_ok step_assign_weak_ok step_move_assign_weak_ok)

lemma consistent_init: "consistent init"
  by (simp add: consistent_def heap_ok_def init_def)

lemma run_consistent:
  "consistent st \<Longrightarrow> run trivial_dtor xs st = Inr st' \<Longrightarrow> consistent st'"
proof (induction xs arbitrary: st)
  case Nil
  then show ?case by simp
next
  case (Cons x xs)
  from step_consistent [OF Cons.prems(1), of x] Cons.prems Cons.IH
  show ?case
    by (cases "step trivial_dtor x st") auto
qed

lemma consistent_counters:
  assumes "consistent st" and "blocks (mem st) b = Some cb"
  shows "shared_refs cb = int (strong_count b st)" and "weak_refs cb = int (weak_count b st)"
    and "b < next_block (mem st)"
  using heap_okD [of "mem st" "live (shared_vars st)" "live (weak_vars st)" b] assms
  by (simp_all add: consistent_def strong_count_def weak_count_def)

lemma consistent_alive_iff:
  assumes "consistent st"
  shows "blocks (mem st) b \<noteq> None \<longleftrightarrow> 0 < strong_count b st + weak_count b st"
  using heap_okD [of "mem st" "live (shared_vars st)" "live (weak_vars st)" b] assms
  by (cases "blocks (mem st) b") (simp_all add: consistent_def strong_count_def weak_count_def)

lemma consistent_Release_count:
  assumes "consistent st"
  shows "count_list (trace (mem st)) (Release b) =
           (if b < next_block (mem st) \<and> strong_count b st = 0 then 1 else 0)"
  using heap_okD [of "mem st" "live (shared_vars st)" "live (weak_vars st)" b] assms
  by (cases "blocks (mem st) b") (auto simp: consistent_def strong_count_def)

lemma consistent_FreeBlock_count:
  assumes "consistent st"
  shows "count_list (trace (mem st)) (FreeBlock b) =
           (if b < next_block (mem st) \<and> strong_count b st + weak_count b st = 0 then 1 else 0)"
  using heap_okD [of "mem st" "live (shared_vars st)" "live (weak_vars st)" b] assms
  by (cases "blocks (mem st) b") (auto simp: consistent_def strong_count_def weak_count_def)

lemma consistent_held_handed_out:
  assumes "consistent st" and "0 < strong_count b st + weak_count b st"
  shows "b < next_block (mem st)"
  using consistent_alive_iff [OF assms(1), of b] assms(2) consistent_counters(3) [OF assms(1), of b]
  by auto

lemma step_facts:
  assumes "consistent st" and "step trivial_dtor x st = Returns r st'"
  shows "consistent st'" and "next_block (mem st) \<le> next_block (mem st')"
    and "\<exists>evs. trace (mem st') = trace (mem st) @ evs"
    and "strong_count b st \<le> Suc (strong_count b st')"
    and "next_block (mem st) \<le> b \<Longrightarrow> b < next_block (mem st') \<Longrightarrow> 0 < strong_count b st'"
  using step_consistent [OF assms(1), of x] assms(2) by simp_all

lemma release_arith:
  fixes s s' n n' :: nat
  assumes "c' = c + k"
    and "c = (if b < n \<and> s = 0 then 1 else 0)"
    and "c' = (if b < n' \<and> s' = 0 then 1 else 0)"
    and "n \<le> n'" and "s \<le> Suc s'"
    and "n \<le> b \<Longrightarrow> b < n' \<Longrightarrow> 0 < s'"
    and "0 < s \<Longrightarrow> b < n"
  shows "k = (if s = 1 \<and> s' = 0 then 1 else (0::nat))"
proof (cases "s = 0")
  case True
  show ?thesis
  proof (cases "b < n")
    case True
    with \<open>s = 0\<close> assms(1,2,3) show ?thesis by (simp split: if_splits)
  next
    case False
    with \<open>s = 0\<close> assms(1,2,3,6) show ?thesis by (auto split: if_splits)
  qed
next
  case False
  with assms(7) have "b < n" by simp
  with False assms(1-5) show ?thesis by (auto split: if_splits)
qed

lemma step_Release_events:
  assumes "consistent st" and "step trivial_dtor x st = Returns r st'"
  shows "\<exists>evs. trace (mem st') = trace (mem st) @ evs
           \<and> (\<forall>b. count_list evs (Release b) =
                  (if strong_count b st = 1 \<and> strong_count b st' = 0 then 1 else 0))"
proof -
  note f = step_facts [OF assms]
  from f(3) obtain evs where evs: "trace (mem st') = trace (mem st) @ evs" by blast
  have "count_list evs (Release b) = (if strong_count b st = 1 \<and> strong_count b st' = 0 then 1 else 0)" for b
  proof (rule release_arith)
    show "count_list (trace (mem st')) (Release b) = count_list (trace (mem st)) (Release b) + count_list evs (Release b)"
      by (simp add: evs)
    show "count_list (trace (mem st)) (Release b) = (if b < next_block (mem st) \<and> strong_count b st = 0 then 1 else 0)"
      by (rule consistent_Release_count [OF assms(1)])
    show "count_list (trace (mem st')) (Release b) = (if b < next_block (mem st') \<and> strong_count b st' = 0 then 1 else 0)"
      by (rule consistent_Release_count [OF f(1)])
    show "next_block (mem st) \<le> next_block (mem st')" by (rule f(2))
    show "strong_count b st \<le> Suc (strong_count b st')" by (rule f(4))
    show "0 < strong_count b st'" if "next_block (mem st) \<le> b" "b < next_block (mem st')"
      using that by (rule f(5))
    show "b < next_block (mem st)" if "0 < strong_count b st"
      using consistent_held_handed_out [OF assms(1), of b] that by simp
  qed
  with evs show ?thesis by blast
qed


lemma free_arith:
  fixes t t' n n' :: nat
  assumes "c' = c + k"
    and "c = (if b < n \<and> t = 0 then 1 else 0)"
    and "c' = (if b < n' \<and> t' = 0 then 1 else 0)"
    and "n \<le> n'"
    and "n \<le> b \<Longrightarrow> b < n' \<Longrightarrow> 0 < t'"
    and "0 < t \<Longrightarrow> b < n"
  shows "k = (if 0 < t \<and> t' = 0 then 1 else (0::nat))"
proof (cases "t = 0")
  case True
  show ?thesis
  proof (cases "b < n")
    case True
    with \<open>t = 0\<close> assms(1,2,3) show ?thesis by (simp split: if_splits)
  next
    case False
    with \<open>t = 0\<close> assms(1,2,3,5) show ?thesis by (auto split: if_splits)
  qed
next
  case False
  with assms(6) have "b < n" by simp
  with False assms(1-4) show ?thesis by (auto split: if_splits)
qed

lemma step_FreeBlock_events:
  assumes "consistent st" and "step trivial_dtor x st = Returns r st'"
  shows "\<exists>evs. trace (mem st') = trace (mem st) @ evs
           \<and> (\<forall>b. count_list evs (FreeBlock b) =
                  (if 0 < strong_count b st + weak_count b st
                      \<and> strong_count b st' + weak_count b st' = 0 then 1 else 0))"
proof -
  note f = step_facts [OF assms]
  from f(3) obtain evs where evs: "trace (mem st') = trace (mem st) @ evs" by blast
  have "count_list evs (FreeBlock b) =
      (if 0 < strong_count b st + weak_count b st \<and> strong_count b st' + weak_count b st' = 0 then 1 else 0)" for b
  proof (rule free_arith)
    show "count_list (trace (mem st')) (FreeBlock b) = count_list (trace (mem st)) (FreeBlock b) + count_list evs (FreeBlock b)"
      by (simp add: evs)
    show "count_list (trace (mem st)) (FreeBlock b) =
        (if b < next_block (mem st) \<and> strong_count b st + weak_count b st = 0 then 1 else 0)"
      by (rule consistent_FreeBlock_count [OF assms(1)])
    show "count_list (trace (mem st')) (FreeBlock b) =
        (if b < next_block (mem st') \<and> strong_count b st' + weak_count b st' = 0 then 1 else 0)"
      by (rule consistent_FreeBlock_count [OF f(1)])
    show "next_block (mem st) \<le> next_block (mem st')" by (rule f(2))
    show "0 < strong_count b st' + weak_count b st'" if "next_block (mem st) \<le> b" "b < next_block (mem st')"
      using f(5) [OF that] by simp
    show "b < next_block (mem st)" if "0 < strong_count b st + weak_count b st"
      using that by (rule consistent_held_handed_out [OF assms(1)])
  qed
  with evs show ?thesis by blast
qed

text \<open>
  The counters and the handles of a managed type that owns no handle. Take any program
  over the operations above (constructions, copies, moves, assignments, resets, swaps and
  destructions of \<^verbatim>\<open>SharedPtr\<close> variables, and the \<^verbatim>\<open>WeakPtr\<close> operations as well),
  run from the empty state. In every state it reaches, the \<^verbatim>\<open>shared_refs\<close> counter of
  every live block equals the number of live \<^verbatim>\<open>SharedPtr\<close> variables that reference the
  block. \<^verbatim>\<open>IfNoShared\<close> has been called on a block exactly once when the block has been
  allocated and no \<^verbatim>\<open>SharedPtr\<close> references it any more, and never before. And the next
  operation, whichever it is, records a call of \<^verbatim>\<open>IfNoShared\<close> on a block exactly when
  it takes the number of \<^verbatim>\<open>SharedPtr\<close> handles on that block from 1 to 0, and then it
  records one call.
\<close>

lemma plain_type_shared_refs_counts_handles:
  assumes "run trivial_dtor xs init = Inr st"
  shows "(\<forall>b cb. blocks (mem st) b = Some cb \<longrightarrow> shared_refs cb = int (strong_count b st))
       \<and> (\<forall>b. count_list (trace (mem st)) (Release b) =
                (if b < next_block (mem st) \<and> strong_count b st = 0 then 1 else 0))
       \<and> (\<forall>x r st'. step trivial_dtor x st = Returns r st' \<longrightarrow>
            (\<exists>evs. trace (mem st') = trace (mem st) @ evs
               \<and> (\<forall>b. count_list evs (Release b) =
                      (if strong_count b st = 1 \<and> strong_count b st' = 0 then 1 else 0))))"
proof (intro conjI allI impI)
  from run_consistent [OF consistent_init assms] have c: "consistent st" .
  show "shared_refs cb = int (strong_count b st)" if "blocks (mem st) b = Some cb" for b cb
    using that by (rule consistent_counters(1) [OF c])
  show "count_list (trace (mem st)) (Release b) =
      (if b < next_block (mem st) \<and> strong_count b st = 0 then 1 else 0)" for b
    by (rule consistent_Release_count [OF c])
  show "\<exists>evs. trace (mem st') = trace (mem st) @ evs
      \<and> (\<forall>b. count_list evs (Release b) = (if strong_count b st = 1 \<and> strong_count b st' = 0 then 1 else 0))"
    if "step trivial_dtor x st = Returns r st'" for x r st'
    using that by (rule step_Release_events [OF c])
qed


text \<open>
  The same for the block itself, still for a managed type that owns no handle: in every
  reachable state a block is alive exactly while some live handle, strong or weak,
  references it, and both its counters are the numbers of those handles. The deletion of a
  block has been recorded exactly once when the block has been allocated and no handle
  references it any more, never before; and an operation records the deletion of a block
  exactly when it takes the number of handles on it to 0, whether the last handle was a
  \<^verbatim>\<open>SharedPtr\<close> or a \<^verbatim>\<open>WeakPtr\<close>.
\<close>

theorem block_freed_with_last_handle:
  assumes "run trivial_dtor xs init = Inr st"
  shows "(\<forall>b. blocks (mem st) b \<noteq> None \<longleftrightarrow> 0 < strong_count b st + weak_count b st)
       \<and> (\<forall>b cb. blocks (mem st) b = Some cb \<longrightarrow>
              shared_refs cb = int (strong_count b st) \<and> weak_refs cb = int (weak_count b st))
       \<and> (\<forall>b. count_list (trace (mem st)) (FreeBlock b) =
                (if b < next_block (mem st) \<and> strong_count b st + weak_count b st = 0 then 1 else 0))
       \<and> (\<forall>x r st'. step trivial_dtor x st = Returns r st' \<longrightarrow>
            (\<exists>evs. trace (mem st') = trace (mem st) @ evs
               \<and> (\<forall>b. count_list evs (FreeBlock b) =
                      (if 0 < strong_count b st + weak_count b st
                          \<and> strong_count b st' + weak_count b st' = 0 then 1 else 0))))"
proof (intro conjI allI impI)
  from run_consistent [OF consistent_init assms] have c: "consistent st" .
  show "blocks (mem st) b \<noteq> None \<longleftrightarrow> 0 < strong_count b st + weak_count b st" for b
    by (rule consistent_alive_iff [OF c])
  show "shared_refs cb = int (strong_count b st)" if "blocks (mem st) b = Some cb" for b cb
    using that by (rule consistent_counters(1) [OF c])
  show "weak_refs cb = int (weak_count b st)" if "blocks (mem st) b = Some cb" for b cb
    using that by (rule consistent_counters(2) [OF c])
  show "count_list (trace (mem st)) (FreeBlock b) =
      (if b < next_block (mem st) \<and> strong_count b st + weak_count b st = 0 then 1 else 0)" for b
    by (rule consistent_FreeBlock_count [OF c])
  show "\<exists>evs. trace (mem st') = trace (mem st) @ evs
      \<and> (\<forall>b. count_list evs (FreeBlock b) =
            (if 0 < strong_count b st + weak_count b st \<and> strong_count b st' + weak_count b st' = 0 then 1 else 0))"
    if "step trivial_dtor x st = Returns r st'" for x r st'
    using that by (rule step_FreeBlock_events [OF c])
qed

text \<open>
  The theorems about single calls above assume of a handle what holds of every live
  variable of every reachable state: the block of a \<^verbatim>\<open>SharedPtr\<close> is alive with a positive
  strong count, the block of a \<^verbatim>\<open>WeakPtr\<close> is alive with a positive weak count, and no
  counter is negative.
\<close>

lemma reachable_SharedPtr_valid:
  assumes "run trivial_dtor xs init = Inr st"
    and "lookup (shared_vars st) i = Some h" and "block h = Some b"
  shows "\<exists>cb. blocks (mem st) b = Some cb \<and> 0 < shared_refs cb \<and> 0 \<le> weak_refs cb"
proof -
  from run_consistent [OF consistent_init assms(1)] have c: "consistent st" .
  from refs_pos [OF lookup_live [OF assms(2)] assms(3)]
  have pos: "0 < strong_count b st" by (simp add: strong_count_def)
  with consistent_alive_iff [OF c, of b] obtain cb where cb: "blocks (mem st) b = Some cb"
    by auto
  from consistent_counters(1,2) [OF c cb] pos show ?thesis
    using cb by simp
qed

lemma reachable_WeakPtr_valid:
  assumes "run trivial_dtor xs init = Inr st"
    and "lookup (weak_vars st) j = Some w" and "block w = Some b"
  shows "\<exists>cb. blocks (mem st) b = Some cb \<and> 0 \<le> shared_refs cb \<and> 0 < weak_refs cb"
proof -
  from run_consistent [OF consistent_init assms(1)] have c: "consistent st" .
  from refs_pos [OF lookup_live [OF assms(2)] assms(3)]
  have pos: "0 < weak_count b st" by (simp add: weak_count_def)
  with consistent_alive_iff [OF c, of b] obtain cb where cb: "blocks (mem st) b = Some cb"
    by auto
  from consistent_counters(1,2) [OF c cb] pos show ?thesis
    using cb by simp
qed

section \<open>Failures\<close>

lemma andThen_ThrowsD:
  "andThen m f = Throws e s \<Longrightarrow> m = Throws e s \<or> (\<exists>a s1. m = Returns a s1 \<and> f a s1 = Throws e s)"
  by (cases m) simp_all

lemma heap_nothrow [simp]:
  "read_block b hp \<noteq> Throws e s" "write_block b g hp \<noteq> Throws e s" "delete_block b hp \<noteq> Throws e s"
  "acquire_shared blk hp \<noteq> Throws e s" "acquire_weak blk hp \<noteq> Throws e s"
  by (auto simp: read_block_def write_block_def delete_block_def acquire_shared_def acquire_weak_def
      split: option.splits)

lemma noexcept_call_nothrow [simp]: "noexcept_call m \<noteq> Throws e s"
  by (cases m) simp_all

lemma dtor_nothrow [simp]:
  "SharedPtr_dtor D h hp \<noteq> Throws e s" "WeakPtr_dtor h hp \<noteq> Throws e s"
  by (auto simp: SharedPtr_dtor_def WeakPtr_dtor_def dest!: andThen_ThrowsD split: option.splits if_splits)

lemma ctor_nothrow [simp]:
  "SharedPtr_copy h hp \<noteq> Throws e s" "SharedPtr_alias h p hp \<noteq> Throws e s"
  "WeakPtr_copy h hp \<noteq> Throws e s" "WeakPtr_from_shared h hp \<noteq> Throws e s"
  by (auto simp: SharedPtr_copy_def SharedPtr_alias_def WeakPtr_copy_def WeakPtr_from_shared_def
      dest!: andThen_ThrowsD)



lemma Expired_heap: "WeakPtr_Expired h hp = Returns x hp' \<Longrightarrow> hp' = hp"
  by (auto simp: WeakPtr_Expired_def WeakPtr_UseCount_def read_block_def split: option.splits)

lemma Expired_nothrow [simp]: "WeakPtr_Expired h hp \<noteq> Throws e s"
  by (auto simp: WeakPtr_Expired_def WeakPtr_UseCount_def read_block_def split: option.splits)

lemma SharedPtr_from_weak_Throws:
  "SharedPtr_from_weak w hp = Throws e s \<Longrightarrow>
     e = BadWeakPtr \<and> s = hp \<and> WeakPtr_Expired w hp = Returns True hp"
  by (auto simp: SharedPtr_from_weak_def dest!: andThen_ThrowsD dest: Expired_heap split: if_splits)

lemma Lock_nothrow [simp]: "WeakPtr_Lock w hp \<noteq> Throws e s"
proof
  assume "WeakPtr_Lock w hp = Throws e s"
  then obtain x hp1 where x: "WeakPtr_Expired w hp = Returns x hp1"
    and t: "(if x then Returns SharedPtr_null hp1 else SharedPtr_from_weak w hp1) = Throws e s"
    by (auto simp: WeakPtr_Lock_def dest!: andThen_ThrowsD)
  from Expired_heap [OF x] have [simp]: "hp1 = hp" .
  from t have "\<not> x" and "SharedPtr_from_weak w hp = Throws e s"
    by (auto split: if_splits)
  from SharedPtr_from_weak_Throws [OF this(2)] x \<open>\<not> x\<close> show False by simp
qed

lemma in_mem_Throws:
  "in_mem st m = Throws e st' \<Longrightarrow> \<exists>hp. m = Throws e hp \<and> st' = st\<lparr>mem := hp\<rparr>"
  by (cases m) (auto simp: in_mem_def)


lemma swap_in_nothrow [simp]:
  "SharedPtr_swap_in D i tmp st \<noteq> Throws e s" "WeakPtr_swap_in i tmp st \<noteq> Throws e s"
  by (auto simp: SharedPtr_swap_in_def WeakPtr_swap_in_def dest!: in_mem_Throws split: option.splits)






section \<open>A managed object that holds a weak handle to itself\<close>

text \<open>
  Claim C2 says that the control block is deleted exactly once, at the step that takes
  \<^verbatim>\<open>shared_refs + weak_refs\<close> to 0, whichever destructor makes the last decrement. It
  fails when the last weak reference is released from inside \<^verbatim>\<open>IfNoShared\<close>, by the
  destructor of the managed object:
  \<^verbatim>\<open>struct Node { WeakPtr<Node> self; }; { SharedPtr<Node> p(new Node); p->self = p; }\<close>.
  At the end of the scope \<^verbatim>\<open>~SharedPtr\<close> takes \<^verbatim>\<open>shared_refs\<close> to 0 and calls
  \<^verbatim>\<open>IfNoShared\<close>; \<^verbatim>\<open>delete ptr_\<close> runs \<^verbatim>\<open>~Node\<close>, whose \<^verbatim>\<open>~WeakPtr\<close> takes
  \<^verbatim>\<open>weak_refs\<close> to 0, finds both counters 0 and deletes the block. Back in
  \<^verbatim>\<open>IfNoShared\<close>, \<^verbatim>\<open>ptr_ = nullptr\<close> writes into the deleted block, and \<^verbatim>\<open>~SharedPtr\<close>
  then reads its counters and deletes it a second time. The model stops at the first
  access to the deleted block. The same happens with \<^verbatim>\<open>MakeShared<Node>()\<close>, where
  \<^verbatim>\<open>~SharedPtr\<close> reads the counters of the deleted block.
\<close>

theorem self_weak_use_after_free:
  "run Node_dtor [New_WeakPtr, New_SharedPtr_from_ptr True (Some (Addr 7)), Assign_WeakPtr_shared 0 0] init =
     Inr \<lparr>mem = one_block (ptr_block 1 1),
          shared_vars = [Some \<lparr>ptr = Some (Addr 7), block = Some 0\<rparr>],
          weak_vars = [Some \<lparr>ptr = Some (Addr 7), block = Some 0\<rparr>]\<rparr>
   \<and> Node_dtor (Addr 7) \<lparr>blocks = [0 \<mapsto> ptr_block 0 1], next_block = 1, trace = [Release 0, Destroy (Addr 7)]\<rparr> =
       Returns () \<lparr>blocks = Map.empty, next_block = 1, trace = [Release 0, Destroy (Addr 7), FreeBlock 0]\<rparr>
   \<and> SharedPtr_dtor Node_dtor \<lparr>ptr = Some (Addr 7), block = Some 0\<rparr> (one_block (ptr_block 1 1)) =
       Undefined UseAfterFree
   \<and> run Node_dtor [New_WeakPtr, New_SharedPtr_from_ptr True (Some (Addr 7)), Assign_WeakPtr_shared 0 0,
        Destroy_SharedPtr 0] init = Inl UseAfterFree
   \<and> run Node_dtor [New_WeakPtr, New_MakeShared True True, Assign_WeakPtr_shared 0 0,
        Destroy_SharedPtr 0] init = Inl UseAfterFree"
  by (simp add: init_def one_block_def ptr_block_def Node_dtor_def handle_defs heap_defs
      store_defs)

end
